theory Spec2Isabelle
  imports Main "HOL-Library.Word"
begin

unbundle bit_operations_syntax

section \<open>Shared types\<close>

text \<open>
  \<^verbatim>\<open>protocol.PacketNumber\<close> and \<^verbatim>\<open>protocol.ByteCount\<close> are \<^verbatim>\<open>uint64\<close>; arithmetic on
  them wraps modulo \<open>2 ^ 64\<close>, which \<open>64 word\<close> does as well.  A byte is an \<open>8 word\<close>.
  \<^verbatim>\<open>time.Time\<close> is an instant, modelled as an integer count of nanoseconds.  A byte
  slice is a list of bytes, and a Go \<^verbatim>\<open>error\<close> made with \<^verbatim>\<open>errors.New\<close> is its message.
\<close>

type_synonym byte = "8 word"
type_synonym PacketNumber = "64 word"
type_synonym ByteCount = "64 word"
type_synonym Time = int
type_synonym bytes = "byte list"
type_synonym go_error = string

section \<open>utils: reading from and writing to byte buffers\<close>

text \<open>
  A \<^verbatim>\<open>bytes.Reader\<close> (or a \<^verbatim>\<open>bytes.Buffer\<close> that is read) is the list of the bytes not
  yet read; a read returns the value and the rest, or the error.  A \<^verbatim>\<open>bytes.Buffer\<close>
  that is written is the list of the bytes written so far; a write appends.
\<close>

datatype io_error =
    EOF
  | ErrUnexpectedEOF
  | PanicTruncatedAck
  | ReasonPhraseTooLong

definition ReadByte :: "bytes \<Rightarrow> io_error + (byte \<times> bytes)" where
  "ReadByte r = (case r of [] \<Rightarrow> Inl EOF | b # r' \<Rightarrow> Inr (b, r'))"

text \<open>\<^verbatim>\<open>bytes.Reader.Read\<close> into a slice of \<open>n\<close> bytes: EOF when nothing is left.\<close>

definition Read :: "bytes \<Rightarrow> nat \<Rightarrow> io_error + (bytes \<times> bytes)" where
  "Read r n = (if r = [] then Inl EOF else Inr (take n r, drop n r))"

text \<open>\<^verbatim>\<open>io.ReadFull\<close> into a slice of \<open>n\<close> bytes.\<close>

definition ReadFull :: "bytes \<Rightarrow> nat \<Rightarrow> io_error + (bytes \<times> bytes)" where
  "ReadFull r n =
     (if n \<le> length r then Inr (take n r, drop n r)
      else if r = [] then Inl EOF
      else Inl ErrUnexpectedEOF)"

text \<open>
  \<^verbatim>\<open>ReadUintN\<close>: the loop counter \<open>i\<close> and the shift \<open>i * 8\<close> are \<^verbatim>\<open>uint8\<close>; a shift
  of 64 or more gives 0 in Go as \<open>push_bit\<close> does on a 64-bit word.
\<close>

function ReadUintN_loop ::
  "bytes \<Rightarrow> 8 word \<Rightarrow> 8 word \<Rightarrow> 64 word \<Rightarrow> io_error + (64 word \<times> bytes)" where
  "ReadUintN_loop b len i res =
     (if i < len then
        (case ReadByte b of
           Inl err \<Rightarrow> Inl err
         | Inr (bt, b') \<Rightarrow>
             ReadUintN_loop b' len (i + 1) (res XOR push_bit (unat (i * 8)) (ucast bt)))
      else Inr (res, b))"
  by pat_completeness auto
termination
proof (relation "measure (\<lambda>(b, len, i, res). unat len - unat i)")
  show "wf (measure (\<lambda>(b, len, i, res). unat len - unat i))"
    by simp
next
  fix b :: bytes and len i :: "8 word" and res :: "64 word" and x y b'
  assume "i < len"
  then have "unat i < unat len"
    by (simp add: word_less_nat_alt)
  moreover have "unat len < 256"
    using unsigned_less[of len, where ?'a = nat] by simp
  ultimately have "unat (i + 1) = unat i + 1"
    by (simp add: unat_word_ariths)
  with \<open>unat i < unat len\<close>
  show "((b', len, i + 1, res XOR push_bit (unat (i * 8)) (ucast y)), (b, len, i, res))
          \<in> measure (\<lambda>(b, len, i, res). unat len - unat i)"
    by simp
qed

definition ReadUintN :: "bytes \<Rightarrow> 8 word \<Rightarrow> io_error + (64 word \<times> bytes)" where
  "ReadUintN b len = ReadUintN_loop b len 0 0"

definition ReadUint32 :: "bytes \<Rightarrow> io_error + (32 word \<times> bytes)" where
  "ReadUint32 b =
     (case ReadByte b of Inl err \<Rightarrow> Inl err | Inr (b1, r1) \<Rightarrow>
      (case ReadByte r1 of Inl err \<Rightarrow> Inl err | Inr (b2, r2) \<Rightarrow>
       (case ReadByte r2 of Inl err \<Rightarrow> Inl err | Inr (b3, r3) \<Rightarrow>
        (case ReadByte r3 of Inl err \<Rightarrow> Inl err | Inr (b4, r4) \<Rightarrow>
           Inr (ucast b1 + push_bit 8 (ucast b2) + push_bit 16 (ucast b3)
                  + push_bit 24 (ucast b4), r4)))))"

definition ReadUint16 :: "bytes \<Rightarrow> io_error + (16 word \<times> bytes)" where
  "ReadUint16 b =
     (case ReadByte b of Inl err \<Rightarrow> Inl err | Inr (b1, r1) \<Rightarrow>
      (case ReadByte r1 of Inl err \<Rightarrow> Inl err | Inr (b2, r2) \<Rightarrow>
         Inr (ucast b1 + push_bit 8 (ucast b2), r2)))"

definition WriteByte :: "bytes \<Rightarrow> byte \<Rightarrow> bytes" where
  "WriteByte b c = b @ [c]"

definition WriteUint32 :: "bytes \<Rightarrow> 32 word \<Rightarrow> bytes" where
  "WriteUint32 b i =
     WriteByte (WriteByte (WriteByte (WriteByte b
       (ucast (i AND 0xff)))
       (ucast (drop_bit 8 i AND 0xff)))
       (ucast (drop_bit 16 i AND 0xff)))
       (ucast (drop_bit 24 i AND 0xff))"

definition WriteUint16 :: "bytes \<Rightarrow> 16 word \<Rightarrow> bytes" where
  "WriteUint16 b i =
     WriteByte (WriteByte b (ucast (i AND 0xff))) (ucast (drop_bit 8 i AND 0xff))"

section \<open>frames: the ACK and CONNECTION_CLOSE codecs\<close>

record AckFrame =
  Entropy :: byte
  LargestObserved :: PacketNumber
  DelayTime :: "16 word"

definition AckFrame_Write :: "bytes \<Rightarrow> AckFrame \<Rightarrow> bytes" where
  "AckFrame_Write b f =
     (let typeByte = (0x48 :: byte);
          b1 = WriteByte b typeByte;
          b2 = WriteByte b1 (Entropy f);
          b3 = WriteUint32 b2 (ucast (LargestObserved f));
          b4 = WriteUint16 b3 1;
          b5 = WriteByte b4 0x01;
          b6 = WriteByte b5 0x00
      in WriteUint32 b6 0)"

text \<open>
  The loop over the timestamps after the first, \<open>k\<close> iterations: a byte and a
  \<^verbatim>\<open>uint16\<close> each time.
\<close>

fun skipTimestamps :: "nat \<Rightarrow> bytes \<Rightarrow> io_error + bytes" where
  "skipTimestamps 0 r = Inr r"
| "skipTimestamps (Suc k) r =
     (case ReadByte r of Inl err \<Rightarrow> Inl err | Inr (_, r1) \<Rightarrow>
      (case ReadUint16 r1 of Inl err \<Rightarrow> Inl err | Inr (_, r2) \<Rightarrow> skipTimestamps k r2))"

text \<open>The loop over the NACK ranges, \<open>k\<close> iterations: a \<^verbatim>\<open>Read\<close> into \<open>n\<close> bytes each time.\<close>

fun skipNackRanges :: "nat \<Rightarrow> nat \<Rightarrow> bytes \<Rightarrow> io_error + bytes" where
  "skipNackRanges 0 n r = Inr r"
| "skipNackRanges (Suc k) n r =
     (case Read r n of Inl err \<Rightarrow> Inl err | Inr (_, r1) \<Rightarrow> skipNackRanges k n r1)"

definition ParseAckFrame :: "bytes \<Rightarrow> io_error + (AckFrame \<times> bytes)" where
  "ParseAckFrame r =
     (case ReadByte r of Inl err \<Rightarrow> Inl err | Inr (typeByte, r1) \<Rightarrow>
      let hasNACK = (typeByte AND 0x20 = 0x20) in
      if typeByte AND 0x10 = 0x10 then Inl PanicTruncatedAck
      else
        let largestObservedLen0 = 2 * drop_bit 2 (typeByte AND 0x0C);
            largestObservedLen = (if largestObservedLen0 = 0 then 1 else largestObservedLen0)
        in
        (case ReadByte r1 of Inl err \<Rightarrow> Inl err | Inr (entropy, r2) \<Rightarrow>
         (case ReadUintN r2 largestObservedLen of Inl err \<Rightarrow> Inl err | Inr (largestObservedN, r3) \<Rightarrow>
          (case ReadUint16 r3 of Inl err \<Rightarrow> Inl err | Inr (delayTime, r4) \<Rightarrow>
           (case ReadByte r4 of Inl err \<Rightarrow> Inl err | Inr (numTimestamp, r5) \<Rightarrow>
            (case ReadByte r5 of Inl err \<Rightarrow> Inl err | Inr (_, r6) \<Rightarrow>
             (case ReadUint32 r6 of Inl err \<Rightarrow> Inl err | Inr (_, r7) \<Rightarrow>
              (case skipTimestamps (unat numTimestamp - 1) r7 of Inl err \<Rightarrow> Inl err | Inr r8 \<Rightarrow>
                 let frame = \<lparr>Entropy = entropy, LargestObserved = largestObservedN,
                              DelayTime = delayTime\<rparr>
                 in
                 if hasNACK then
                   (case ReadByte r8 of Inl err \<Rightarrow> Inl err | Inr (numRanges, r9) \<Rightarrow>
                    (case skipNackRanges (unat numRanges) (unat (largestObservedLen + 1)) r9 of
                       Inl err \<Rightarrow> Inl err
                     | Inr r10 \<Rightarrow> Inr (frame, r10)))
                 else Inr (frame, r8)))))))))"

text \<open>
  \<^verbatim>\<open>protocol.ErrorCode\<close> is written through \<^verbatim>\<open>uint32(...)\<close> and read back from a
  \<^verbatim>\<open>uint32\<close>: a 32-bit word.  A Go string is its sequence of bytes.
\<close>

record ConnectionCloseFrame =
  ErrorCode :: "32 word"
  ReasonPhrase :: bytes

definition ParseConnectionCloseFrame :: "bytes \<Rightarrow> io_error + (ConnectionCloseFrame \<times> bytes)" where
  "ParseConnectionCloseFrame r =
     (case ReadByte r of Inl err \<Rightarrow> Inl err | Inr (_, r1) \<Rightarrow>
      (case ReadUint32 r1 of Inl err \<Rightarrow> Inl err | Inr (errorCode, r2) \<Rightarrow>
       (case ReadUint16 r2 of Inl err \<Rightarrow> Inl err | Inr (reasonPhraseLen, r3) \<Rightarrow>
        (case ReadFull r3 (unat reasonPhraseLen) of Inl err \<Rightarrow> Inl err
         | Inr (reasonPhrase, r4) \<Rightarrow>
             Inr (\<lparr>ErrorCode = errorCode, ReasonPhrase = reasonPhrase\<rparr>, r4)))))"

text \<open>
  \<^verbatim>\<open>ConnectionCloseFrame.Write\<close> ignores its packet number, packet number length and
  version arguments.  It returns the error (if any) and the buffer as the call leaves it:
  the type byte and the error code are already written when the length check fails.
\<close>

definition ConnectionCloseFrame_Write ::
  "bytes \<Rightarrow> ConnectionCloseFrame \<Rightarrow> io_error option \<times> bytes" where
  "ConnectionCloseFrame_Write b f =
     (let b1 = WriteByte b 0x02;
          b2 = WriteUint32 b1 (ErrorCode f)
      in
      if length (ReasonPhrase f) > 65535 then (Some ReasonPhraseTooLong, b2)
      else
        let reasonPhraseLen = (of_nat (length (ReasonPhrase f)) :: 16 word);
            b3 = WriteUint16 b2 reasonPhraseLen
        in (None, foldl WriteByte b3 (take (unat reasonPhraseLen) (ReasonPhrase f))))"

section \<open>ackhandler: the received-packet handler\<close>

text \<open>
  \<^verbatim>\<open>EntropyAccumulator\<close> is a byte.  Its method \<^verbatim>\<open>Add\<close> is defined in a file that is
  missing from the sources, so every function that calls it takes it as the parameter
  \<open>Add\<close>.
\<close>

type_synonym EntropyAccumulator = byte
type_synonym EntropyAdd = "EntropyAccumulator \<Rightarrow> PacketNumber \<Rightarrow> bool \<Rightarrow> EntropyAccumulator"

record packetHistoryEntry =
  EntropyBit :: bool
  TimeReceived :: Time

record NackRange =
  FirstPacketNumber :: PacketNumber
  LastPacketNumber :: PacketNumber

text \<open>The ACK frame as the handler fills it in (the fields \<^verbatim>\<open>GetAckFrame\<close> sets).\<close>

record AckFrameNack =
  ackLargestObserved :: PacketNumber
  ackEntropy :: byte
  NackRanges :: "NackRange list"
  PacketReceivedTime :: Time

record StopWaitingFrame =
  LeastUnacked :: PacketNumber
  swfEntropy :: byte
  swfPacketNumber :: PacketNumber
  PacketNumberLen :: "8 word"

record receivedPacketHandler =
  highestInOrderObserved :: PacketNumber
  highestInOrderObservedEntropy :: EntropyAccumulator
  largestObserved :: PacketNumber
  packetHistory :: "PacketNumber \<rightharpoonup> packetHistoryEntry"
  currentAckFrame :: "AckFrameNack option"
  stateChanged :: bool

datatype rph_error =
    ErrDuplicatePacket
  | errInvalidPacketNumber
  | ErrMapAccess
  | IndexOutOfRange

definition NewReceivedPacketHandler :: receivedPacketHandler where
  "NewReceivedPacketHandler =
     \<lparr>highestInOrderObserved = 0, highestInOrderObservedEntropy = 0, largestObserved = 0,
      packetHistory = Map.empty, currentAckFrame = None, stateChanged = False\<rparr>"

text \<open>
  \<^verbatim>\<open>ReceivedPacket\<close> returns the error (if any) together with the handler as the call
  leaves it.  \<open>now\<close> is the value of \<^verbatim>\<open>time.Now()\<close>.
\<close>

definition ReceivedPacket ::
  "EntropyAdd \<Rightarrow> Time \<Rightarrow> PacketNumber \<Rightarrow> bool \<Rightarrow> receivedPacketHandler
     \<Rightarrow> rph_error option \<times> receivedPacketHandler" where
  "ReceivedPacket Add now packetNumber entropyBit h =
     (if packetNumber = 0 then (Some errInvalidPacketNumber, h)
      else if packetNumber \<le> highestInOrderObserved h \<or> packetHistory h packetNumber \<noteq> None
        then (Some ErrDuplicatePacket, h)
      else
        let h1 = h\<lparr>stateChanged := True, currentAckFrame := None\<rparr>;
            h2 = (if packetNumber > largestObserved h1
                  then h1\<lparr>largestObserved := packetNumber\<rparr> else h1);
            h3 = (if packetNumber = highestInOrderObserved h2 + 1
                  then h2\<lparr>highestInOrderObserved := packetNumber,
                          highestInOrderObservedEntropy :=
                            Add (highestInOrderObservedEntropy h2) packetNumber entropyBit\<rparr>
                  else h2)
        in (None,
            h3\<lparr>packetHistory := (packetHistory h3)(packetNumber \<mapsto>
                  \<lparr>EntropyBit = entropyBit, TimeReceived = now\<rparr>)\<rparr>))"

definition ReceivedStopWaiting ::
  "StopWaitingFrame \<Rightarrow> receivedPacketHandler \<Rightarrow> rph_error option \<times> receivedPacketHandler" where
  "ReceivedStopWaiting f h =
     (if highestInOrderObserved h \<ge> LeastUnacked f then (None, h)
      else (None, h\<lparr>highestInOrderObserved := LeastUnacked f - 1,
                     highestInOrderObservedEntropy := swfEntropy f\<rparr>))"

text \<open>
  The loop of \<^verbatim>\<open>getNackRanges\<close>, counting \<open>i\<close> down from \<^verbatim>\<open>largestObserved\<close>.
  \<^verbatim>\<open>ranges[len(ranges)-1]\<close> panics on an empty slice; the model returns \<open>None\<close> there.
\<close>

function getNackRanges_loop ::
  "EntropyAdd \<Rightarrow> receivedPacketHandler \<Rightarrow> PacketNumber \<Rightarrow> NackRange list \<Rightarrow> bool
     \<Rightarrow> EntropyAccumulator \<Rightarrow> (NackRange list \<times> EntropyAccumulator) option" where
  "getNackRanges_loop Add h i ranges inRange entropy =
     (if i > highestInOrderObserved h then
        (case packetHistory h i of
           None \<Rightarrow>
             (if \<not> inRange then
                getNackRanges_loop Add h (i - 1)
                  (ranges @ [\<lparr>FirstPacketNumber = i, LastPacketNumber = i\<rparr>]) True entropy
              else if ranges = [] then None
              else
                getNackRanges_loop Add h (i - 1)
                  (butlast ranges @
                     [(last ranges)\<lparr>FirstPacketNumber := FirstPacketNumber (last ranges) - 1\<rparr>])
                  True entropy)
         | Some p \<Rightarrow>
             getNackRanges_loop Add h (i - 1) ranges False (Add entropy i (EntropyBit p)))
      else Some (ranges, entropy))"
  by pat_completeness auto
termination
proof (relation "measure (\<lambda>(Add, h, i, ranges, inRange, entropy). unat i)")
  show "wf (measure (\<lambda>(Add, h, i, ranges, inRange, entropy). unat i))"
    by simp
next
  fix Add :: EntropyAdd and h :: receivedPacketHandler and i :: PacketNumber
    and ranges :: "NackRange list" and inRange :: bool and entropy :: EntropyAccumulator
  assume "highestInOrderObserved h < i"
  then have "i \<noteq> 0"
    by (metis word_not_simps(1))
  then have "unat (i - 1) < unat i"
    by (simp add: unat_minus_one unat_gt_0)
  then show "((Add, h, i - 1, ranges @ [\<lparr>FirstPacketNumber = i, LastPacketNumber = i\<rparr>], True, entropy),
              (Add, h, i, ranges, inRange, entropy))
             \<in> measure (\<lambda>(Add, h, i, ranges, inRange, entropy). unat i)"
    and "((Add, h, i - 1,
            butlast ranges @
              [(last ranges)\<lparr>FirstPacketNumber := FirstPacketNumber (last ranges) - 1\<rparr>],
            True, entropy),
           (Add, h, i, ranges, inRange, entropy))
          \<in> measure (\<lambda>(Add, h, i, ranges, inRange, entropy). unat i)"
    and "\<And>p. ((Add, h, i - 1, ranges, False, Add entropy i (EntropyBit p)),
               (Add, h, i, ranges, inRange, entropy))
              \<in> measure (\<lambda>(Add, h, i, ranges, inRange, entropy). unat i)"
    by simp_all
qed

definition getNackRanges ::
  "EntropyAdd \<Rightarrow> receivedPacketHandler \<Rightarrow> (NackRange list \<times> EntropyAccumulator) option" where
  "getNackRanges Add h =
     getNackRanges_loop Add h (largestObserved h) [] False (highestInOrderObservedEntropy h)"

text \<open>
  \<^verbatim>\<open>GetAckFrame\<close> returns the frame (or nil), the error (or nil) and the handler as the
  call leaves it.
\<close>

definition GetAckFrame ::
  "EntropyAdd \<Rightarrow> bool \<Rightarrow> receivedPacketHandler
     \<Rightarrow> AckFrameNack option \<times> rph_error option \<times> receivedPacketHandler" where
  "GetAckFrame Add dequeue h =
     (if \<not> stateChanged h then (None, None, h)
      else
        let h1 = (if dequeue then h\<lparr>stateChanged := False\<rparr> else h) in
        (case currentAckFrame h1 of
           Some f \<Rightarrow> (Some f, None, h1)
         | None \<Rightarrow>
            (case packetHistory h1 (largestObserved h1) of
               None \<Rightarrow> (None, Some ErrMapAccess, h1)
             | Some p \<Rightarrow>
                (case getNackRanges Add h1 of
                   None \<Rightarrow> (None, Some IndexOutOfRange, h1)
                 | Some (nackRanges, entropy) \<Rightarrow>
                     let f = \<lparr>ackLargestObserved = largestObserved h1, ackEntropy = entropy,
                              NackRanges = nackRanges, PacketReceivedTime = TimeReceived p\<rparr>
                     in (Some f, None, h1\<lparr>currentAckFrame := Some f\<rparr>)))))"

text \<open>
  Well-formed lists of NACK ranges: every range is non-empty, and each later range lies
  entirely below every earlier one (strictly descending, hence pairwise disjoint).
\<close>

definition nack_wf :: "NackRange list \<Rightarrow> bool" where
  "nack_wf rs \<longleftrightarrow>
     (\<forall>r\<in>set rs. FirstPacketNumber r \<le> LastPacketNumber r) \<and>
     sorted_wrt (\<lambda>a b. LastPacketNumber b < FirstPacketNumber a) rs"

text \<open>The handler states that calls of the three methods can produce from a new handler.\<close>

inductive rph_reachable :: "EntropyAdd \<Rightarrow> receivedPacketHandler \<Rightarrow> bool" for Add where
  reach_new: "rph_reachable Add NewReceivedPacketHandler"
| reach_packet: "rph_reachable Add h \<Longrightarrow> rph_reachable Add (snd (ReceivedPacket Add now n e h))"
| reach_stop: "rph_reachable Add h \<Longrightarrow> rph_reachable Add (snd (ReceivedStopWaiting f h))"
| reach_ack: "rph_reachable Add h \<Longrightarrow> rph_reachable Add (snd (snd (GetAckFrame Add dq h)))"

text \<open>
  An instance of the parameter \<open>Add\<close> for evaluating the handler on concrete inputs:
  it flips bit \<open>packetNumber mod 8\<close> when the entropy flag is set.
\<close>

definition Add_example :: EntropyAdd where
  "Add_example e packetNumber entropyFlag =
     (if entropyFlag then e XOR push_bit (unat (packetNumber mod 8)) 1 else e)"

text \<open>
  The invariant of the cached frame \<^verbatim>\<open>currentAckFrame\<close>: its ranges are well formed and
  end at or below \<^verbatim>\<open>largestObserved\<close>.
\<close>

definition cache_inv :: "receivedPacketHandler \<Rightarrow> bool" where
  "cache_inv h \<longleftrightarrow> (case currentAckFrame h of None \<Rightarrow> True
     | Some f \<Rightarrow> nack_wf (NackRanges f) \<and>
         (\<forall>r\<in>set (NackRanges f). LastPacketNumber r \<le> largestObserved h))"

section \<open>frames: stream frames and the frame interface\<close>

text \<open>
  \<^verbatim>\<open>protocol.StreamID\<close> is a \<^verbatim>\<open>uint32\<close>.  \<^verbatim>\<open>frames.Frame\<close> is an interface; the model
  has one constructor for each implementation that the packer and the stream name, and
  one for every other frame type.
\<close>

record StreamFrame =
  StreamID :: "32 word"
  FinBit :: bool
  DataLenPresent :: bool
  Offset :: ByteCount
  Data :: bytes

datatype Frame =
    FrameStopWaiting StopWaitingFrame
  | FrameStream StreamFrame
  | FrameAck AckFrameNack
  | FrameConnectionClose ConnectionCloseFrame
  | FrameBlocked "32 word"
  | FrameOther nat

fun isStopWaiting :: "Frame \<Rightarrow> bool" where
  "isStopWaiting (FrameStopWaiting swf) = True"
| "isStopWaiting f = False"

text \<open>
  \<^verbatim>\<open>protocol.EncryptionLevel\<close>, in the order of its constants (\<^verbatim>\<open>canSendData\<close> compares
  levels with \<^verbatim>\<open>>=\<close>).
\<close>

datatype EncryptionLevel =
    EncryptionUnspecified
  | EncryptionUnencrypted
  | EncryptionSecure
  | EncryptionForwardSecure

fun encryptionLevelRank :: "EncryptionLevel \<Rightarrow> nat" where
  "encryptionLevelRank EncryptionUnspecified = 0"
| "encryptionLevelRank EncryptionUnencrypted = 1"
| "encryptionLevelRank EncryptionSecure = 2"
| "encryptionLevelRank EncryptionForwardSecure = 3"


section \<open>ackhandler: the outgoing-packet handler\<close>

text \<open>
  The fields of \<^verbatim>\<open>ackhandler.Packet\<close> that \<^verbatim>\<open>SentPacket\<close> and the packet packer read and
  write.  The handler
  keeps a pointer to the packet whose \<^verbatim>\<open>Entropy\<close> it has just set; the model stores the
  packet with that field set.  The field names carry a prefix where another record of
  this theory has a field of the same name.
\<close>

record Packet =
  pktPacketNumber :: PacketNumber
  pktEntropyBit :: bool
  pktEntropy :: EntropyAccumulator
  pktFrames :: "Frame list"
  pktEncryptionLevel :: EncryptionLevel

record outgoingPacketAckHandler =
  lastSentPacketNumber :: PacketNumber
  highestInOrderAckedPacketNumber :: PacketNumber
  highestInOrderAckedEntropy :: EntropyAccumulator
  sentPacketHistory :: "PacketNumber \<rightharpoonup> Packet"

text \<open>
  The two errors of \<^verbatim>\<open>SentPacket\<close>, and the panic of reading \<^verbatim>\<open>.Entropy\<close> through the nil
  pointer that the history map returns for a missing key.
\<close>

datatype opah_error =
    PacketNumberAlreadyExists
  | PacketNumberNotIncreasedByOne
  | NilPointerDereference

definition NewOutgoingPacketAckHandler :: outgoingPacketAckHandler where
  "NewOutgoingPacketAckHandler =
     \<lparr>lastSentPacketNumber = 0, highestInOrderAckedPacketNumber = 0,
      highestInOrderAckedEntropy = 0, sentPacketHistory = Map.empty\<rparr>"

definition recordPacket ::
  "EntropyAdd \<Rightarrow> EntropyAccumulator \<Rightarrow> Packet \<Rightarrow> outgoingPacketAckHandler
     \<Rightarrow> outgoingPacketAckHandler" where
  "recordPacket Add lastPacketEntropy packet h =
     h\<lparr>lastSentPacketNumber := pktPacketNumber packet,
       sentPacketHistory := (sentPacketHistory h)(pktPacketNumber packet \<mapsto>
         packet\<lparr>pktEntropy :=
           Add lastPacketEntropy (pktPacketNumber packet) (pktEntropyBit packet)\<rparr>)\<rparr>"

definition SentPacket ::
  "EntropyAdd \<Rightarrow> Packet \<Rightarrow> outgoingPacketAckHandler
     \<Rightarrow> opah_error option \<times> outgoingPacketAckHandler" where
  "SentPacket Add packet h =
     (if sentPacketHistory h (pktPacketNumber packet) \<noteq> None
        then (Some PacketNumberAlreadyExists, h)
      else if lastSentPacketNumber h + 1 \<noteq> pktPacketNumber packet
        then (Some PacketNumberNotIncreasedByOne, h)
      else if pktPacketNumber packet = 0
        then (None, recordPacket Add 0 packet h)
      else if highestInOrderAckedPacketNumber h = pktPacketNumber packet - 1
        then (None, recordPacket Add (highestInOrderAckedEntropy h) packet h)
      else
        (case sentPacketHistory h (pktPacketNumber packet - 1) of
           None \<Rightarrow> (Some NilPointerDereference, h)
         | Some q \<Rightarrow> (None, recordPacket Add (pktEntropy q) packet h)))"

text \<open>A packet for evaluating the handler on concrete inputs.\<close>

definition Packet_example :: "PacketNumber \<Rightarrow> bool \<Rightarrow> Packet" where
  "Packet_example n b =
     \<lparr>pktPacketNumber = n, pktEntropyBit = b, pktEntropy = 0, pktFrames = [],
      pktEncryptionLevel = EncryptionForwardSecure\<rparr>"

text \<open>A sequence of \<^verbatim>\<open>SentPacket\<close> calls, stopping at the first one that fails.\<close>

fun SentPackets ::
  "EntropyAdd \<Rightarrow> Packet list \<Rightarrow> outgoingPacketAckHandler
     \<Rightarrow> opah_error option \<times> outgoingPacketAckHandler" where
  "SentPackets Add [] h = (None, h)"
| "SentPackets Add (p # ps) h =
     (case SentPacket Add p h of
        (Some e, h') \<Rightarrow> (Some e, h')
      | (None, h') \<Rightarrow> SentPackets Add ps h')"

section \<open>handshake: the crypto setup\<close>

text \<open>
  A \<^verbatim>\<open>crypto.AEAD\<close> is an interface with the methods \<^verbatim>\<open>Open\<close> and \<^verbatim>\<open>Seal\<close>; an
  implementation is a record of the two functions.  \<^verbatim>\<open>crypto.NullAEAD\<close> is missing from
  the sources and is the parameter \<open>nullAEAD\<close> of \<^verbatim>\<open>Open\<close> and \<^verbatim>\<open>Seal\<close>.
\<close>

record AEAD =
  aeadOpen :: "PacketNumber \<Rightarrow> bytes \<Rightarrow> bytes \<Rightarrow> go_error + bytes"
  aeadSeal :: "PacketNumber \<Rightarrow> bytes \<Rightarrow> bytes \<Rightarrow> bytes"

text \<open>The fields of \<^verbatim>\<open>CryptoSetup\<close> that \<^verbatim>\<open>Open\<close> and \<^verbatim>\<open>Seal\<close> read and write.\<close>

record CryptoSetup =
  secureAEAD :: "AEAD option"
  forwardSecureAEAD :: "AEAD option"
  receivedForwardSecurePacket :: bool
  receivedSecurePacket :: bool

text \<open>
  \<^verbatim>\<open>Open\<close> is three blocks, each falling through to the next: the forward-secure AEAD,
  the secure AEAD, the null AEAD.  The result is the pair \<^verbatim>\<open>([]byte, error)\<close> as a sum,
  with the setup as the call leaves it.
\<close>

definition OpenNull ::
  "AEAD \<Rightarrow> PacketNumber \<Rightarrow> bytes \<Rightarrow> bytes \<Rightarrow> CryptoSetup \<Rightarrow> (go_error + bytes) \<times> CryptoSetup" where
  "OpenNull nullAEAD packetNumber associatedData ciphertext h =
     (aeadOpen nullAEAD packetNumber associatedData ciphertext, h)"

definition OpenSecure ::
  "AEAD \<Rightarrow> PacketNumber \<Rightarrow> bytes \<Rightarrow> bytes \<Rightarrow> CryptoSetup \<Rightarrow> (go_error + bytes) \<times> CryptoSetup" where
  "OpenSecure nullAEAD packetNumber associatedData ciphertext h =
     (case secureAEAD h of
        Some a \<Rightarrow>
          (case aeadOpen a packetNumber associatedData ciphertext of
             Inr res \<Rightarrow> (Inr res, h\<lparr>receivedSecurePacket := True\<rparr>)
           | Inl err \<Rightarrow>
               if receivedSecurePacket h then (Inl err, h)
               else OpenNull nullAEAD packetNumber associatedData ciphertext h)
      | None \<Rightarrow> OpenNull nullAEAD packetNumber associatedData ciphertext h)"

definition Open ::
  "AEAD \<Rightarrow> PacketNumber \<Rightarrow> bytes \<Rightarrow> bytes \<Rightarrow> CryptoSetup \<Rightarrow> (go_error + bytes) \<times> CryptoSetup" where
  "Open nullAEAD packetNumber associatedData ciphertext h =
     (case forwardSecureAEAD h of
        Some a \<Rightarrow>
          (case aeadOpen a packetNumber associatedData ciphertext of
             Inr res \<Rightarrow> (Inr res, h\<lparr>receivedForwardSecurePacket := True\<rparr>)
           | Inl err \<Rightarrow>
               if receivedForwardSecurePacket h then (Inl err, h)
               else OpenSecure nullAEAD packetNumber associatedData ciphertext h)
      | None \<Rightarrow> OpenSecure nullAEAD packetNumber associatedData ciphertext h)"

text \<open>
  \<^verbatim>\<open>Seal\<close> calls \<^verbatim>\<open>h.forwardSecureAEAD.Seal\<close> without a nil check once the flag is set:
  on a nil AEAD that panics, which is \<open>None\<close> here.
\<close>

definition Seal ::
  "AEAD \<Rightarrow> PacketNumber \<Rightarrow> bytes \<Rightarrow> bytes \<Rightarrow> CryptoSetup \<Rightarrow> bytes option" where
  "Seal nullAEAD packetNumber associatedData plaintext h =
     (if receivedForwardSecurePacket h then
        (case forwardSecureAEAD h of
           Some a \<Rightarrow> Some (aeadSeal a packetNumber associatedData plaintext)
         | None \<Rightarrow> None)
      else
        (case secureAEAD h of
           Some a \<Rightarrow> Some (aeadSeal a packetNumber associatedData plaintext)
         | None \<Rightarrow> Some (aeadSeal nullAEAD packetNumber associatedData plaintext)))"

text \<open>A sequence of \<^verbatim>\<open>Open\<close> and \<^verbatim>\<open>Seal\<close> calls on one setup, with the result of each.\<close>

datatype crypto_call =
    CallOpen PacketNumber bytes bytes
  | CallSeal PacketNumber bytes bytes

datatype crypto_result =
    Opened "go_error + bytes"
  | Sealed "bytes option"

fun crypto_step :: "AEAD \<Rightarrow> crypto_call \<Rightarrow> CryptoSetup \<Rightarrow> crypto_result \<times> CryptoSetup" where
  "crypto_step nullAEAD (CallOpen pn ad ct) h =
     (Opened (fst (Open nullAEAD pn ad ct h)), snd (Open nullAEAD pn ad ct h))"
| "crypto_step nullAEAD (CallSeal pn ad pt) h = (Sealed (Seal nullAEAD pn ad pt h), h)"

fun crypto_run :: "AEAD \<Rightarrow> crypto_call list \<Rightarrow> CryptoSetup \<Rightarrow> crypto_result list" where
  "crypto_run nullAEAD [] h = []"
| "crypto_run nullAEAD (c # cs) h =
     fst (crypto_step nullAEAD c h) # crypto_run nullAEAD cs (snd (crypto_step nullAEAD c h))"

text \<open>What a call returns when it is served by the AEAD \<open>a\<close> alone.\<close>

fun served_by :: "AEAD \<Rightarrow> crypto_call \<Rightarrow> crypto_result" where
  "served_by a (CallOpen pn ad ct) = Opened (aeadOpen a pn ad ct)"
| "served_by a (CallSeal pn ad pt) = Sealed (Some (aeadSeal a pn ad pt))"

text \<open>
  A toy AEAD for evaluating examples: sealing appends the one-byte key as a tag, opening
  checks and strips it.
\<close>

definition tagAEAD :: "byte \<Rightarrow> AEAD" where
  "tagAEAD k =
     \<lparr>aeadOpen = (\<lambda>pn ad ct.
        if ct \<noteq> [] \<and> last ct = k then Inr (butlast ct) else Inl ''authentication failed''),
      aeadSeal = (\<lambda>pn ad pt. pt @ [k])\<rparr>"

section \<open>handshake: the connection parameters manager\<close>

text \<open>
  \<^verbatim>\<open>handshake.Tag\<close> is a \<^verbatim>\<open>uint32\<close> with named constants, declared in a file that is
  missing from the sources.  The model has one constructor for each tag that
  \<^verbatim>\<open>SetFromMap\<close> switches on and one for every other value (the named tags are distinct
  values).  A \<^verbatim>\<open>time.Duration\<close> is an \<^verbatim>\<open>int64\<close> count of nanoseconds, here an integer:
  the one product \<^verbatim>\<open>SetFromMap\<close> computes, a \<^verbatim>\<open>uint32\<close> times \<^verbatim>\<open>time.Second\<close>, stays below
  \<open>2 ^ 63\<close>.  The constant \<^verbatim>\<open>protocol.MaxIdleConnectionStateLifetime\<close> is missing from
  the sources as well and is the parameter \<open>MaxIdleConnectionStateLifetime\<close>.
\<close>

datatype Tag = TagMSPC | TagTCID | TagICSL | TagSFCW | TagCFCW | TagOther "32 word"

type_synonym Duration = int

definition Second :: Duration where
  "Second = 1000000000"

record ConnectionParametersManager =
  params :: "Tag \<rightharpoonup> bytes"
  idleConnectionStateLifetime :: Duration
  sendStreamFlowControlWindow :: ByteCount
  sendConnectionFlowControlWindow :: ByteCount
  receiveStreamFlowControlWindow :: ByteCount
  receiveConnectionFlowControlWindow :: ByteCount

definition MinDuration :: "Duration \<Rightarrow> Duration \<Rightarrow> Duration" where
  "MinDuration a b = (if a > b then b else a)"

definition negotiateIdleConnectionStateLifetime :: "Duration \<Rightarrow> Duration \<Rightarrow> Duration" where
  "negotiateIdleConnectionStateLifetime MaxIdleConnectionStateLifetime clientValue =
     MinDuration clientValue MaxIdleConnectionStateLifetime"

text \<open>
  \<^verbatim>\<open>SetFromMap\<close> ranges over a Go map, in an order the language leaves open: the model
  takes the entries as the list in which the loop visits them.  It returns the error (if
  any) and the manager as the call leaves it.
\<close>

fun SetFromMap ::
  "Duration \<Rightarrow> (Tag \<times> bytes) list \<Rightarrow> ConnectionParametersManager
     \<Rightarrow> io_error option \<times> ConnectionParametersManager" where
  "SetFromMap MaxIdle [] h = (None, h)"
| "SetFromMap MaxIdle ((key, val) # rest) h =
     (case key of
        TagMSPC \<Rightarrow> SetFromMap MaxIdle rest (h\<lparr>params := (params h)(key \<mapsto> val)\<rparr>)
      | TagTCID \<Rightarrow> SetFromMap MaxIdle rest (h\<lparr>params := (params h)(key \<mapsto> val)\<rparr>)
      | TagICSL \<Rightarrow>
          (case ReadUint32 val of
             Inl err \<Rightarrow> (Some err, h)
           | Inr (clientValue, _) \<Rightarrow>
               SetFromMap MaxIdle rest
                 (h\<lparr>idleConnectionStateLifetime :=
                      negotiateIdleConnectionStateLifetime MaxIdle (uint clientValue * Second)\<rparr>))
      | TagSFCW \<Rightarrow>
          (case ReadUint32 val of
             Inl err \<Rightarrow> (Some err, h)
           | Inr (w, _) \<Rightarrow>
               SetFromMap MaxIdle rest (h\<lparr>sendStreamFlowControlWindow := ucast w\<rparr>))
      | TagCFCW \<Rightarrow>
          (case ReadUint32 val of
             Inl err \<Rightarrow> (Some err, h)
           | Inr (w, _) \<Rightarrow>
               SetFromMap MaxIdle rest (h\<lparr>sendConnectionFlowControlWindow := ucast w\<rparr>))
      | TagOther _ \<Rightarrow> SetFromMap MaxIdle rest h)"

definition GetIdleConnectionStateLifetime :: "ConnectionParametersManager \<Rightarrow> Duration" where
  "GetIdleConnectionStateLifetime h = idleConnectionStateLifetime h"

text \<open>
  Modelled from the spec: the session code that arms the idle timer from the lifetime
  the manager reports, which is missing from the sources.  The spec's table of transport
  parameters reads the value 0 as "disabled" (\<^emph>\<open>min of both sides, 0 = disabled\<close>).
\<close>

definition idleTimeoutDisabled :: "Duration \<Rightarrow> bool" where
  "idleTimeoutDisabled lifetime \<longleftrightarrow> lifetime = 0"

section \<open>The packet packer\<close>

datatype Perspective = PerspectiveServer | PerspectiveClient

text \<open>The fields of \<^verbatim>\<open>PublicHeader\<close> that the packer sets, with the prefix \<open>ph\<close>.\<close>

record PublicHeader =
  phConnectionID :: "64 word"
  phPacketNumber :: PacketNumber
  phPacketNumberLen :: "8 word"
  phTruncateConnectionID :: bool
  phDiversificationNonce :: bytes
  phVersionFlag :: bool
  phVersionNumber :: nat

record packedPacket =
  number :: PacketNumber
  raw :: bytes
  frames :: "Frame list"
  encryptionLevel :: EncryptionLevel

text \<open>
  The packer's own fields.  Its collaborators (the crypto setup, the stream framer, the
  packet number generator, the connection parameters) and the constants and methods of
  other packages that it calls are missing from the sources: the record
  \<open>packerDeps\<close> holds what each of them answers during one call of the packer.
  A sealer takes the payload, the packet number and the header bytes.
  \<open>PopBlockedFrames\<close> lists the stream IDs of the frames that \<^verbatim>\<open>PopBlockedFrame\<close>
  returns before it returns nil.
\<close>

record packetPacker =
  connectionID :: "64 word"
  perspective :: Perspective
  version :: nat
  controlFrames :: "Frame list"
  stopWaiting :: "StopWaitingFrame option"

type_synonym Sealer = "bytes \<Rightarrow> PacketNumber \<Rightarrow> bytes \<Rightarrow> bytes"

record packerDeps =
  HasCryptoStreamFrame :: bool
  PopCryptoStreamFrame :: "ByteCount \<Rightarrow> StreamFrame"
  PopStreamFrames :: "ByteCount \<Rightarrow> StreamFrame list"
  PopBlockedFrames :: "32 word list"
  GetSealer :: "EncryptionLevel \<times> Sealer"
  GetSealerForCryptoStream :: "EncryptionLevel \<times> Sealer"
  GetSealerWithEncryptionLevel :: "EncryptionLevel \<Rightarrow> go_error + Sealer"
  DiversificationNonce :: bytes
  TruncateConnectionID :: bool
  Peek :: PacketNumber
  Pop :: PacketNumber
  GetPacketNumberLengthForPublicHeader :: "PacketNumber \<Rightarrow> PacketNumber \<Rightarrow> 8 word"
  GetLength :: "PublicHeader \<Rightarrow> Perspective \<Rightarrow> go_error + ByteCount"
  HeaderWrite :: "PublicHeader \<Rightarrow> go_error + bytes"
  MinLength :: "Frame \<Rightarrow> go_error + ByteCount"
  FrameWrite :: "Frame \<Rightarrow> go_error + bytes"
  MaxFrameAndPublicHeaderSize :: ByteCount
  NonForwardSecurePacketSizeReduction :: ByteCount
  MaxPacketSize :: ByteCount

text \<open>
  \<^verbatim>\<open>newPacketPacker\<close> sets the connection ID, the perspective and the version (and the
  collaborators); \<^verbatim>\<open>controlFrames\<close> and \<^verbatim>\<open>stopWaiting\<close> start as nil.
\<close>

definition newPacketPacker :: "64 word \<Rightarrow> Perspective \<Rightarrow> nat \<Rightarrow> packetPacker" where
  "newPacketPacker cid persp v =
     \<lparr>connectionID = cid, perspective = persp, version = v, controlFrames = [],
      stopWaiting = None\<rparr>"

definition getPublicHeader ::
  "packerDeps \<Rightarrow> packetPacker \<Rightarrow> PacketNumber \<Rightarrow> EncryptionLevel \<Rightarrow> PublicHeader" where
  "getPublicHeader d p leastUnacked encLevel =
     (let pnum = Peek d;
          packetNumberLen = GetPacketNumberLengthForPublicHeader d pnum leastUnacked;
          publicHeader =
            \<lparr>phConnectionID = connectionID p, phPacketNumber = pnum,
             phPacketNumberLen = packetNumberLen,
             phTruncateConnectionID = TruncateConnectionID d,
             phDiversificationNonce = [], phVersionFlag = False, phVersionNumber = 0\<rparr>;
          publicHeader1 =
            (if perspective p = PerspectiveServer \<and> encLevel = EncryptionSecure
             then publicHeader\<lparr>phDiversificationNonce := DiversificationNonce d\<rparr>
             else publicHeader)
      in if perspective p = PerspectiveClient \<and> encLevel \<noteq> EncryptionForwardSecure
         then publicHeader1\<lparr>phVersionFlag := True, phVersionNumber := version p\<rparr>
         else publicHeader1)"

fun writeFrames :: "packerDeps \<Rightarrow> Frame list \<Rightarrow> bytes \<Rightarrow> go_error + bytes" where
  "writeFrames d [] buffer = Inr buffer"
| "writeFrames d (frame # rest) buffer =
     (case FrameWrite d frame of
        Inl err \<Rightarrow> Inl err
      | Inr w \<Rightarrow> writeFrames d rest (buffer @ w))"

definition writeAndSealPacket ::
  "packerDeps \<Rightarrow> PublicHeader \<Rightarrow> Frame list \<Rightarrow> Sealer \<Rightarrow> go_error + bytes" where
  "writeAndSealPacket d publicHeader payloadFrames sealer =
     (case HeaderWrite d publicHeader of
        Inl err \<Rightarrow> Inl err
      | Inr hdr \<Rightarrow>
         (case writeFrames d payloadFrames hdr of
            Inl err \<Rightarrow> Inl err
          | Inr buffer \<Rightarrow>
              if (of_nat (length buffer + 12) :: ByteCount) > MaxPacketSize d
              then Inl ''PacketPacker BUG: packet too large''
              else
                let raw = hdr @ sealer (drop (length hdr) buffer) (phPacketNumber publicHeader) hdr;
                    num = Pop d
                in if num \<noteq> phPacketNumber publicHeader
                   then Inl ''packetPacker BUG: Peeked and Popped packet numbers do not match''
                   else Inr raw))"

definition canSendData :: "packetPacker \<Rightarrow> EncryptionLevel \<Rightarrow> bool" where
  "canSendData p encLevel =
     (if perspective p = PerspectiveClient
      then encryptionLevelRank encLevel \<ge> encryptionLevelRank EncryptionSecure
      else encLevel = EncryptionForwardSecure)"

text \<open>
  The loop of \<^verbatim>\<open>composeNextPacket\<close> over the control frames, taken from the end of the
  slice.  It returns the error of \<^verbatim>\<open>MinLength\<close> (if any), the control frames left, the
  payload length and the payload frames.
\<close>

function composeControlFrames ::
  "packerDeps \<Rightarrow> ByteCount \<Rightarrow> Frame list \<Rightarrow> ByteCount \<Rightarrow> Frame list
     \<Rightarrow> go_error option \<times> Frame list \<times> ByteCount \<times> Frame list" where
  "composeControlFrames d maxFrameSize cf payloadLength payloadFrames =
     (if length cf > 0 then
        (let frame = last cf in
         case MinLength d frame of
           Inl err \<Rightarrow> (Some err, cf, payloadLength, payloadFrames)
         | Inr minLength \<Rightarrow>
             if payloadLength + minLength > maxFrameSize
             then (None, cf, payloadLength, payloadFrames)
             else composeControlFrames d maxFrameSize (butlast cf)
                    (payloadLength + minLength) (payloadFrames @ [frame]))
      else (None, cf, payloadLength, payloadFrames))"
  by pat_completeness auto
termination
  by (relation "measure (\<lambda>(d, maxFrameSize, cf, payloadLength, payloadFrames). length cf)") auto

definition composeNextPacket ::
  "packerDeps \<Rightarrow> ByteCount \<Rightarrow> bool \<Rightarrow> packetPacker
     \<Rightarrow> (go_error + Frame list) \<times> packetPacker" where
  "composeNextPacket d maxFrameSize canSendStreamFrames p =
     (let p1 = (case stopWaiting p of
                  Some swf \<Rightarrow> p\<lparr>controlFrames := controlFrames p @ [FrameStopWaiting swf]\<rparr>
                | None \<Rightarrow> p)
      in
      case composeControlFrames d maxFrameSize (controlFrames p1) 0 [] of
        (Some err, cf, payloadLength, payloadFrames) \<Rightarrow> (Inl err, p1\<lparr>controlFrames := cf\<rparr>)
      | (None, cf, payloadLength, payloadFrames) \<Rightarrow>
          let p2 = p1\<lparr>controlFrames := cf\<rparr> in
          if payloadLength > maxFrameSize
          then (Inl ''Packet Packer BUG: packet payload too large'', p2)
          else if \<not> canSendStreamFrames then (Inr payloadFrames, p2)
          else
            let maxFrameSize2 = maxFrameSize + 2;
                fs = PopStreamFrames d (maxFrameSize2 - payloadLength);
                fs1 = (if length fs \<noteq> 0
                       then butlast fs @ [(last fs)\<lparr>DataLenPresent := False\<rparr>]
                       else fs)
            in (Inr (payloadFrames @ map FrameStream fs1),
                p2\<lparr>controlFrames := controlFrames p2 @ map FrameBlocked (PopBlockedFrames d)\<rparr>))"

text \<open>The three ways \<^verbatim>\<open>packPacket\<close> picks the encryption level and the sealer.\<close>

definition chooseSealer ::
  "packerDeps \<Rightarrow> Packet option \<Rightarrow> go_error + (EncryptionLevel \<times> Sealer)" where
  "chooseSealer d handshakePacketToRetransmit =
     (case handshakePacketToRetransmit of
        Some pkt \<Rightarrow>
          (case GetSealerWithEncryptionLevel d (pktEncryptionLevel pkt) of
             Inl err \<Rightarrow> Inl err
           | Inr sealer \<Rightarrow> Inr (pktEncryptionLevel pkt, sealer))
      | None \<Rightarrow>
          if HasCryptoStreamFrame d then Inr (GetSealerForCryptoStream d)
          else Inr (GetSealer d))"

text \<open>The three ways \<^verbatim>\<open>packPacket\<close> fills \<^verbatim>\<open>payloadFrames\<close>.\<close>

definition choosePayload ::
  "packerDeps \<Rightarrow> Packet option \<Rightarrow> ByteCount \<Rightarrow> EncryptionLevel \<Rightarrow> packetPacker
     \<Rightarrow> (go_error + Frame list) \<times> packetPacker" where
  "choosePayload d handshakePacketToRetransmit publicHeaderLength encLevel p =
     (case handshakePacketToRetransmit of
        Some pkt \<Rightarrow>
          (case stopWaiting p of
             None \<Rightarrow>
               (Inl ''PacketPacker BUG: Handshake retransmissions must contain a StopWaitingFrame'',
                p)
           | Some swf \<Rightarrow> (Inr (FrameStopWaiting swf # pktFrames pkt), p))
      | None \<Rightarrow>
          if HasCryptoStreamFrame d then
            (let maxLen = MaxFrameAndPublicHeaderSize d - NonForwardSecurePacketSizeReduction d
                            - publicHeaderLength
             in (Inr [FrameStream (PopCryptoStreamFrame d maxLen)], p))
          else
            (let maxSize = MaxFrameAndPublicHeaderSize d - publicHeaderLength
             in composeNextPacket d maxSize (canSendData p encLevel) p))"

text \<open>
  \<^verbatim>\<open>packPacket\<close> returns the packet (or nil), or the error, and the packer as the call
  leaves it.
\<close>

definition packPacket ::
  "packerDeps \<Rightarrow> PacketNumber \<Rightarrow> Packet option \<Rightarrow> packetPacker
     \<Rightarrow> (go_error + packedPacket option) \<times> packetPacker" where
  "packPacket d leastUnacked handshakePacketToRetransmit p =
     (case chooseSealer d handshakePacketToRetransmit of
        Inl err \<Rightarrow> (Inl err, p)
      | Inr (encLevel, sealer) \<Rightarrow>
          let publicHeader = getPublicHeader d p leastUnacked encLevel in
          (case GetLength d publicHeader (perspective p) of
             Inl err \<Rightarrow> (Inl err, p)
           | Inr publicHeaderLength \<Rightarrow>
               let p1 = (case stopWaiting p of
                           Some swf \<Rightarrow>
                             p\<lparr>stopWaiting := Some (swf\<lparr>swfPacketNumber := phPacketNumber publicHeader,
                                                         PacketNumberLen := phPacketNumberLen publicHeader\<rparr>)\<rparr>
                         | None \<Rightarrow> p)
               in
               (case choosePayload d handshakePacketToRetransmit publicHeaderLength encLevel p1 of
                  (Inl err, p2) \<Rightarrow> (Inl err, p2)
                | (Inr payloadFrames, p2) \<Rightarrow>
                    if length payloadFrames = 0 then (Inr None, p2)
                    else if length payloadFrames = 1 \<and> stopWaiting p2 \<noteq> None then (Inr None, p2)
                    else
                      let p3 = p2\<lparr>stopWaiting := None\<rparr> in
                      (case writeAndSealPacket d publicHeader payloadFrames sealer of
                         Inl err \<Rightarrow> (Inl err, p3)
                       | Inr rawBytes \<Rightarrow>
                           (Inr (Some \<lparr>number = phPacketNumber publicHeader, raw = rawBytes,
                                       frames = payloadFrames, encryptionLevel = encLevel\<rparr>),
                            p3)))))"




definition QueueControlFrameForNextPacket :: "Frame \<Rightarrow> packetPacker \<Rightarrow> packetPacker" where
  "QueueControlFrameForNextPacket f p =
     (case f of
        FrameStopWaiting swf \<Rightarrow> p\<lparr>stopWaiting := Some swf\<rparr>
      | _ \<Rightarrow> p\<lparr>controlFrames := controlFrames p @ [f]\<rparr>)"



text \<open>
  A condition on the collaborators of one call: for a STOP_WAITING frame \<^verbatim>\<open>MinLength\<close>
  returns no error, and the length it returns is at most the frame size that
  \<^verbatim>\<open>packPacket\<close> passes to \<^verbatim>\<open>composeNextPacket\<close>, which is
  \<^verbatim>\<open>MaxFrameAndPublicHeaderSize\<close> less the length of the public header (in \<^verbatim>\<open>ByteCount\<close>
  arithmetic, as the code computes it).  Then the STOP_WAITING frame that
  \<^verbatim>\<open>composeNextPacket\<close> appends to \<^verbatim>\<open>controlFrames\<close> is taken off again by the first
  round of its loop.
\<close>

definition stopWaitingFits :: "packerDeps \<Rightarrow> bool" where
  "stopWaitingFits d \<longleftrightarrow>
     (\<forall>swf ph persp hl. GetLength d ph persp = Inr hl \<longrightarrow>
        (\<exists>m. MinLength d (FrameStopWaiting swf) = Inr m
             \<and> m \<le> MaxFrameAndPublicHeaderSize d - hl))"


text \<open>Collaborators and a packer for evaluating the packer on a concrete input.\<close>

definition packerDeps_example :: packerDeps where
  "packerDeps_example =
     \<lparr>HasCryptoStreamFrame = False,
      PopCryptoStreamFrame = (\<lambda>maxLen.
        \<lparr>StreamID = 1, FinBit = False, DataLenPresent = True, Offset = 0, Data = []\<rparr>),
      PopStreamFrames = (\<lambda>maxLen.
        [\<lparr>StreamID = 5, FinBit = False, DataLenPresent = True, Offset = 0, Data = [0xDE, 0xCA]\<rparr>]),
      PopBlockedFrames = [],
      GetSealer = (EncryptionForwardSecure, (\<lambda>payload pn hdr. payload @ replicate 12 0)),
      GetSealerForCryptoStream = (EncryptionUnencrypted, (\<lambda>payload pn hdr. payload @ replicate 12 0)),
      GetSealerWithEncryptionLevel = (\<lambda>l. Inr (\<lambda>payload pn hdr. payload @ replicate 12 0)),
      DiversificationNonce = [],
      TruncateConnectionID = False,
      Peek = 1,
      Pop = 1,
      GetPacketNumberLengthForPublicHeader = (\<lambda>pnum leastUnacked. 2),
      GetLength = (\<lambda>ph persp. Inr 11),
      HeaderWrite = (\<lambda>ph. Inr (replicate 11 0)),
      MinLength = (\<lambda>f. Inr 8),
      FrameWrite = (\<lambda>f. Inr [if isStopWaiting f then 0x06 else 0xA0]),
      MaxFrameAndPublicHeaderSize = 1338,
      NonForwardSecurePacketSizeReduction = 50,
      MaxPacketSize = 1350\<rparr>"


text \<open>
  Collaborators outside \<open>stopWaitingFits\<close>: \<^verbatim>\<open>MinLength\<close> answers 2000 bytes, more than
  the frame size of 1327, and the stream framer has two frames.  And collaborators like
  \<open>packerDeps_example\<close> whose stream framer has no frame.
\<close>

definition packerDeps_tooLarge :: packerDeps where
  "packerDeps_tooLarge =
     packerDeps_example
       \<lparr>MinLength := (\<lambda>f. Inr 2000),
        PopStreamFrames := (\<lambda>maxLen.
          [\<lparr>StreamID = 5, FinBit = False, DataLenPresent = True, Offset = 0, Data = [0xDE]\<rparr>,
           \<lparr>StreamID = 7, FinBit = False, DataLenPresent = True, Offset = 0, Data = [0xCA]\<rparr>])\<rparr>"

definition packerDeps_noData :: packerDeps where
  "packerDeps_noData = packerDeps_example\<lparr>PopStreamFrames := (\<lambda>maxLen. [])\<rparr>"

section \<open>The stream\<close>

text \<open>
  Modelled from the spec: the type \<^verbatim>\<open>flowController\<close>, whose file is missing from the
  sources.  The spec has each flow-control scope track the bytes consumed, the
  window advertised to the peer and the highest offset received from the peer, and on the
  send side the bytes queued and the send window.
\<close>

record flowController =
  bytesSent :: ByteCount
  sendFlowControlWindow :: ByteCount
  bytesRead :: ByteCount
  highestReceived :: ByteCount
  receiveFlowControlWindow :: ByteCount

text \<open>
  Modelled from the spec: \<^verbatim>\<open>flowController.SendWindowSize\<close>.  The flow control window
  is the \<^emph>\<open>upper bound on offsets the sender may transmit on a stream\<close>, so what is
  left of it is the window less the bytes already sent, and nothing once they exceed it.
\<close>

definition SendWindowSize :: "flowController \<Rightarrow> ByteCount" where
  "SendWindowSize c =
     (if bytesSent c > sendFlowControlWindow c then 0
      else sendFlowControlWindow c - bytesSent c)"

text \<open>Modelled from the spec: \<^verbatim>\<open>flowController.AddBytesSent\<close> adds to the bytes queued.\<close>

definition AddBytesSent :: "ByteCount \<Rightarrow> flowController \<Rightarrow> flowController" where
  "AddBytesSent n c = c\<lparr>bytesSent := bytesSent c + n\<rparr>"

text \<open>
  Modelled from the spec: \<^verbatim>\<open>flowController.UpdateSendWindow\<close> raises the send window to
  the offset the peer advertises, and says whether it did (a window never shrinks).
\<close>

definition UpdateSendWindow :: "ByteCount \<Rightarrow> flowController \<Rightarrow> bool \<times> flowController" where
  "UpdateSendWindow n c =
     (if n > sendFlowControlWindow c then (True, c\<lparr>sendFlowControlWindow := n\<rparr>)
      else (False, c))"

text \<open>
  Modelled from the spec: \<^verbatim>\<open>flowController.UpdateHighestReceived\<close> keeps the highest
  offset received (\<^emph>\<open>highest_received_offset\<close>).
\<close>

definition UpdateHighestReceived :: "ByteCount \<Rightarrow> flowController \<Rightarrow> flowController" where
  "UpdateHighestReceived byteOffset c =
     (if byteOffset > highestReceived c then c\<lparr>highestReceived := byteOffset\<rparr> else c)"

text \<open>
  Modelled from the spec: \<^verbatim>\<open>flowController.CheckFlowControlViolation\<close>.  The spec's
  invariant is that \<^emph>\<open>at no point may highest_received_offset > max_data_advertised\<close>;
  the check reports its violation.
\<close>

definition CheckFlowControlViolation :: "flowController \<Rightarrow> bool" where
  "CheckFlowControlViolation c \<longleftrightarrow> highestReceived c > receiveFlowControlWindow c"

text \<open>
  The fields of \<^verbatim>\<open>stream\<close>; the mutex and the condition variables have no counterpart.
  \<^verbatim>\<open>streamFrameSorter\<close> is missing from the sources: the frame queue is the list
  of the frames pushed.  \<^verbatim>\<open>err\<close> is nil (\<open>None\<close>) or an error.
\<close>

record stream =
  streamID :: "32 word"
  readPosInFrame :: nat
  writeOffset :: ByteCount
  readOffset :: ByteCount
  err :: "go_error option"
  eof :: bool
  closed :: bool
  frameQueue :: "StreamFrame list"
  flowController :: flowController

text \<open>\<^verbatim>\<open>qerr.FlowControlReceivedTooMuchData\<close>, the value of \<^verbatim>\<open>errFlowControlViolation\<close>.\<close>

definition FlowControlReceivedTooMuchData :: go_error where
  "FlowControlReceivedTooMuchData = ''FlowControlReceivedTooMuchData''"

definition errFlowControlViolation :: go_error where
  "errFlowControlViolation = FlowControlReceivedTooMuchData"

text \<open>
  \<^verbatim>\<open>AddStreamFrame\<close> returns the error (if any) and the stream as the call leaves it.
  \<^verbatim>\<open>len(frame.Data)\<close> is converted to a \<^verbatim>\<open>ByteCount\<close> and the sum wraps modulo
  \<open>2 ^ 64\<close>.
\<close>

definition AddStreamFrame :: "StreamFrame \<Rightarrow> stream \<Rightarrow> go_error option \<times> stream" where
  "AddStreamFrame frame s =
     (let maxOffset = Offset frame + of_nat (length (Data frame));
          s1 = s\<lparr>flowController := UpdateHighestReceived maxOffset (flowController s)\<rparr>
      in if CheckFlowControlViolation (flowController s1) then (Some errFlowControlViolation, s1)
         else (None, s1\<lparr>frameQueue := frameQueue s1 @ [frame]\<rparr>))"

definition UpdateSendFlowControlWindow :: "ByteCount \<Rightarrow> stream \<Rightarrow> stream" where
  "UpdateSendFlowControlWindow n s =
     s\<lparr>flowController := snd (UpdateSendWindow n (flowController s))\<rparr>"

definition RegisterError :: "go_error \<Rightarrow> stream \<Rightarrow> stream" where
  "RegisterError e s =
     (let s1 = s\<lparr>closed := True\<rparr>
      in if err s1 \<noteq> None then s1 else s1\<lparr>err := Some e\<rparr>)"

text \<open>
  \<^verbatim>\<open>Write\<close> waits on a condition variable while the send window is empty and no error
  is registered; what wakes it is a call of \<^verbatim>\<open>UpdateSendFlowControlWindow\<close> or of
  \<^verbatim>\<open>RegisterError\<close> from another goroutine.  The model takes the list of these calls
  in the order in which they happen while \<^verbatim>\<open>Write\<close> waits, one for each wake-up; with
  the window still empty and no call left, \<^verbatim>\<open>Write\<close> waits for ever, which is \<open>None\<close>.
\<close>

datatype stream_event =
    EvUpdateSendFlowControlWindow ByteCount
  | EvRegisterError go_error

fun applyEvent :: "stream_event \<Rightarrow> stream \<Rightarrow> stream" where
  "applyEvent (EvUpdateSendFlowControlWindow n) s = UpdateSendFlowControlWindow n s"
| "applyEvent (EvRegisterError e) s = RegisterError e s"

fun waitForWindow ::
  "stream_event list \<Rightarrow> stream \<Rightarrow> (ByteCount \<times> stream_event list \<times> stream) option" where
  "waitForWindow [] s =
     (if SendWindowSize (flowController s) = 0 \<and> err s = None then None
      else Some (SendWindowSize (flowController s), [], s))"
| "waitForWindow (e # evs) s =
     (if SendWindowSize (flowController s) = 0 \<and> err s = None
      then waitForWindow evs (applyEvent e s)
      else Some (SendWindowSize (flowController s), e # evs, s))"

text \<open>
  What a call leaves behind: the values returned (or the panic of \<^verbatim>\<open>make\<close> with a
  negative length, when the window read as an \<^verbatim>\<open>int\<close> is negative), the events not
  consumed, the frames the session has queued, and the stream.  The session is the
  interface \<^verbatim>\<open>streamHandler\<close>; its \<^verbatim>\<open>queueStreamFrame\<close> is the parameter \<open>q\<close>, which
  gives the error for a frame or \<open>None\<close> when the session takes it.
\<close>

datatype write_return =
    Returned nat "go_error option"
  | PanicNegativeLen

type_synonym write_outcome = "write_return \<times> stream_event list \<times> StreamFrame list \<times> stream"

function Write_loop ::
  "(StreamFrame \<Rightarrow> go_error option) \<Rightarrow> bytes \<Rightarrow> nat \<Rightarrow> stream_event list
     \<Rightarrow> StreamFrame list \<Rightarrow> stream \<Rightarrow> write_outcome option" where
  "Write_loop q p dataWritten evs queued s =
     (if dataWritten < length p then
        (case waitForWindow evs s of
           None \<Rightarrow> None
         | Some (remainingBytesInWindow, evs1, s1) \<Rightarrow>
             if remainingBytesInWindow = 0 then Some (Returned 0 (err s1), evs1, queued, s1)
             else if sint remainingBytesInWindow < 0 then Some (PanicNegativeLen, evs1, queued, s1)
             else
               (case q \<lparr>StreamID = streamID s1, FinBit = False, DataLenPresent = False,
                         Offset = writeOffset s1,
                         Data = take (min (length p) (nat (sint remainingBytesInWindow))) p\<rparr> of
                  Some e \<Rightarrow> Some (Returned 0 (Some e), evs1, queued, s1)
                | None \<Rightarrow>
                    Write_loop q p
                      (dataWritten + min (length p) (nat (sint remainingBytesInWindow)))
                      evs1
                      (queued @
                         [\<lparr>StreamID = streamID s1, FinBit = False, DataLenPresent = False,
                           Offset = writeOffset s1,
                           Data = take (min (length p) (nat (sint remainingBytesInWindow))) p\<rparr>])
                      (s1\<lparr>flowController :=
                            AddBytesSent
                              (of_nat (min (length p) (nat (sint remainingBytesInWindow))))
                              (flowController s1),
                          writeOffset :=
                            writeOffset s1
                              + of_nat (min (length p) (nat (sint remainingBytesInWindow)))\<rparr>)))
      else Some (Returned (length p) None, evs, queued, s))"
  by pat_completeness auto
termination
proof (relation "measure (\<lambda>(q, p, dataWritten, evs, queued, s). length p - dataWritten)")
  show "wf (measure (\<lambda>(q, p, dataWritten, evs, queued, s). length p - dataWritten))"
    by simp
next
  fix q :: "StreamFrame \<Rightarrow> go_error option" and p :: bytes and dataWritten :: nat
    and evs :: "stream_event list" and queued :: "StreamFrame list" and s :: stream
    and x2 :: "ByteCount \<times> stream_event list \<times> stream"
    and remainingBytesInWindow :: ByteCount and y :: "stream_event list \<times> stream"
    and evs1 :: "stream_event list" and s1 :: stream
  assume lt: "dataWritten < length p"
    and nz: "remainingBytesInWindow \<noteq> 0"
    and nn: "\<not> sint remainingBytesInWindow < 0"
  have "sint remainingBytesInWindow \<noteq> 0"
    using nz by (metis signed_eq_0_iff)
  with nn have "0 < nat (sint remainingBytesInWindow)"
    by simp
  moreover from lt have "0 < length p"
    by (cases p) simp_all
  ultimately have "0 < min (length p) (nat (sint remainingBytesInWindow))"
    by simp
  with lt
  have "length p - (dataWritten + min (length p) (nat (sint remainingBytesInWindow)))
          < length p - dataWritten"
    by arith
  then
  show "((q, p, dataWritten + min (length p) (nat (sint remainingBytesInWindow)), evs1,
          queued @
            [\<lparr>StreamID = streamID s1, FinBit = False, DataLenPresent = False,
              Offset = writeOffset s1,
              Data = take (min (length p) (nat (sint remainingBytesInWindow))) p\<rparr>],
          s1\<lparr>flowController :=
                AddBytesSent (of_nat (min (length p) (nat (sint remainingBytesInWindow))))
                  (flowController s1),
              writeOffset :=
                writeOffset s1 + of_nat (min (length p) (nat (sint remainingBytesInWindow)))\<rparr>),
         (q, p, dataWritten, evs, queued, s))
        \<in> measure (\<lambda>(q, p, dataWritten, evs, queued, s). length p - dataWritten)"
    by simp
qed

definition Write ::
  "(StreamFrame \<Rightarrow> go_error option) \<Rightarrow> bytes \<Rightarrow> stream_event list \<Rightarrow> StreamFrame list
     \<Rightarrow> stream \<Rightarrow> write_outcome option" where
  "Write q p evs queued s =
     (case err s of
        Some e \<Rightarrow> Some (Returned 0 (Some e), evs, queued, s)
      | None \<Rightarrow> Write_loop q p 0 evs queued s)"

text \<open>
  \<^verbatim>\<open>Close\<close> returns the error of \<^verbatim>\<open>queueStreamFrame\<close> (if any), the frames the session
  has queued and the stream.
\<close>

definition Close ::
  "(StreamFrame \<Rightarrow> go_error option) \<Rightarrow> StreamFrame list \<Rightarrow> stream
     \<Rightarrow> go_error option \<times> StreamFrame list \<times> stream" where
  "Close q queued s =
     (let s1 = s\<lparr>closed := True\<rparr>;
          frame = \<lparr>StreamID = streamID s1, FinBit = True, DataLenPresent = False,
                   Offset = writeOffset s1, Data = []\<rparr>
      in case q frame of
           Some e \<Rightarrow> (Some e, queued, s1)
         | None \<Rightarrow> (None, queued @ [frame], s1))"

text \<open>
  The bytes that a list of queued frames puts at each offset of the stream, as the list
  of (offset, byte) pairs in the order queued.
\<close>

definition frameBytes :: "StreamFrame \<Rightarrow> (nat \<times> byte) list" where
  "frameBytes f = zip [unat (Offset f) ..< unat (Offset f) + length (Data f)] (Data f)"

text \<open>
  For evaluating \<^verbatim>\<open>Write\<close> on a concrete input: a session that takes every frame, and
  a stream with a send window of 2 bytes.
\<close>

definition queueStreamFrame_ok :: "StreamFrame \<Rightarrow> go_error option" where
  "queueStreamFrame_ok frame = None"


definition stream_example :: stream where
  "stream_example =
     \<lparr>streamID = 5, readPosInFrame = 0, writeOffset = 0, readOffset = 0, err = None,
      eof = False, closed = False, frameQueue = [],
      flowController =
        \<lparr>bytesSent = 0, sendFlowControlWindow = 2, bytesRead = 0, highestReceived = 0,
         receiveFlowControlWindow = 16\<rparr>\<rparr>"

section \<open>Properties of the received-packet handler\<close>

text \<open>
  C4.  For a packet number \<open>n \<ge> 1\<close> and any handler state, \<^verbatim>\<open>ReceivedPacket\<close> returns
  \<^verbatim>\<open>ErrDuplicatePacket\<close> exactly when \<open>n\<close> is at most \<^verbatim>\<open>highestInOrderObserved\<close> or is a
  key of the packet history, and the call that returns this error leaves the whole
  handler (largest observed, highest in order, history, cached frame, state-changed flag)
  as it was.
\<close>

theorem ReceivedPacket_duplicate:
  assumes "1 \<le> n"
  shows "(fst (ReceivedPacket Add now n e h) = Some ErrDuplicatePacket
            \<longleftrightarrow> (n \<le> highestInOrderObserved h \<or> n \<in> dom (packetHistory h)))
       \<and> (fst (ReceivedPacket Add now n e h) = Some ErrDuplicatePacket
            \<longrightarrow> snd (ReceivedPacket Add now n e h) = h)"
proof -
  from assms have "n \<noteq> 0" by auto
  then show ?thesis
    by (auto simp: ReceivedPacket_def Let_def)
qed

theorem ReceivedPacket_duplicate_witness:
  "(1::PacketNumber) \<le> 3
   \<and> fst (ReceivedPacket Add_example 7 3 True
        \<lparr>highestInOrderObserved = 1, highestInOrderObservedEntropy = 0, largestObserved = 3,
         packetHistory = [1 \<mapsto> \<lparr>EntropyBit = False, TimeReceived = 4\<rparr>,
                          3 \<mapsto> \<lparr>EntropyBit = False, TimeReceived = 5\<rparr>],
         currentAckFrame = None, stateChanged = True\<rparr>) = Some ErrDuplicatePacket
   \<and> snd (ReceivedPacket Add_example 7 3 True
        \<lparr>highestInOrderObserved = 1, highestInOrderObservedEntropy = 0, largestObserved = 3,
         packetHistory = [1 \<mapsto> \<lparr>EntropyBit = False, TimeReceived = 4\<rparr>,
                          3 \<mapsto> \<lparr>EntropyBit = False, TimeReceived = 5\<rparr>],
         currentAckFrame = None, stateChanged = True\<rparr>)
     = \<lparr>highestInOrderObserved = 1, highestInOrderObservedEntropy = 0, largestObserved = 3,
         packetHistory = [1 \<mapsto> \<lparr>EntropyBit = False, TimeReceived = 4\<rparr>,
                          3 \<mapsto> \<lparr>EntropyBit = False, TimeReceived = 5\<rparr>],
         currentAckFrame = None, stateChanged = True\<rparr>"
proof -
  have h: "(1::PacketNumber) \<le> 3" by simp
  show ?thesis
    using h ReceivedPacket_duplicate [OF h, of Add_example 7 True
        "\<lparr>highestInOrderObserved = 1, highestInOrderObservedEntropy = 0, largestObserved = 3,
         packetHistory = [1 \<mapsto> \<lparr>EntropyBit = False, TimeReceived = 4\<rparr>,
                          3 \<mapsto> \<lparr>EntropyBit = False, TimeReceived = 5\<rparr>],
         currentAckFrame = None, stateChanged = True\<rparr>"]
    by simp
qed

subsection \<open>NACK ranges of the frames of \<^verbatim>\<open>GetAckFrame\<close>\<close>

lemma getNackRanges_loop_inv:
  assumes "nack_wf rs"
    and "\<forall>r\<in>set rs. highestInOrderObserved h < FirstPacketNumber r \<and> i < FirstPacketNumber r \<and> LastPacketNumber r \<le> L"
    and "i \<le> L"
    and "inR \<longrightarrow> rs \<noteq> [] \<and> FirstPacketNumber (last rs) = i + 1"
  shows "\<exists>rs' e'. getNackRanges_loop Add h i rs inR e = Some (rs', e') \<and> nack_wf rs' \<and>
     (\<forall>r\<in>set rs'. highestInOrderObserved h < FirstPacketNumber r \<and> LastPacketNumber r \<le> L)"
  using assms
proof (induction Add h i rs inR e rule: getNackRanges_loop.induct)
  case (1 Add h i ranges inRange entropy)
  note IH1 = 1(1) and IH2 = 1(2) and IH3 = 1(3) and wf0 = 1(4) and bnd0 = 1(5)
    and le0 = 1(6) and inr0 = 1(7)
  show ?case
  proof (cases "i > highestInOrderObserved h")
    case False
    then show ?thesis using wf0 bnd0 by (subst getNackRanges_loop.simps) auto
  next
    case True
    then have i0: "i \<noteq> 0" by (metis word_not_simps(1))
    then have lt: "i - 1 < i" using sub_wrap by fastforce
    have le: "i - 1 \<le> L" using lt le0 by auto
    show ?thesis
    proof (cases "packetHistory h i")
      case (Some p)
      have "\<exists>rs' e'. getNackRanges_loop Add h (i - 1) ranges False (Add entropy i (EntropyBit p)) = Some (rs', e') \<and> nack_wf rs' \<and>
     (\<forall>r\<in>set rs'. highestInOrderObserved h < FirstPacketNumber r \<and> LastPacketNumber r \<le> L)"
        apply (rule IH3[OF True Some wf0 _ le])
        using bnd0 lt by auto
      then show ?thesis using True Some by (subst getNackRanges_loop.simps) simp
    next
      case None
      show ?thesis
      proof (cases inRange)
        case False
        let ?rs = "ranges @ [\<lparr>FirstPacketNumber = i, LastPacketNumber = i\<rparr>]"
        have wf: "nack_wf ?rs" using wf0 bnd0
          by (auto simp: nack_wf_def sorted_wrt_append)
        have bnd: "\<forall>r\<in>set ?rs. highestInOrderObserved h < FirstPacketNumber r \<and> i - 1 < FirstPacketNumber r \<and> LastPacketNumber r \<le> L"
          using bnd0 le0 True lt by auto
        have "\<exists>rs' e'. getNackRanges_loop Add h (i - 1) ?rs True entropy = Some (rs', e') \<and> nack_wf rs' \<and>
     (\<forall>r\<in>set rs'. highestInOrderObserved h < FirstPacketNumber r \<and> LastPacketNumber r \<le> L)"
          apply (rule IH1[OF True None _ wf bnd le])
          using False by auto
        then show ?thesis using True None False by (subst getNackRanges_loop.simps) simp
      next
        case inR: True
        then have ne: "ranges \<noteq> []" and fl: "FirstPacketNumber (last ranges) = i + 1"
          using inr0 by auto
        let ?l = "(last ranges)\<lparr>FirstPacketNumber := FirstPacketNumber (last ranges) - 1\<rparr>"
        let ?rs = "butlast ranges @ [?l]"
        have split: "ranges = butlast ranges @ [last ranges]" using ne by simp
        have lastin: "last ranges \<in> set ranges" using ne by simp
        have ilt: "i < i + 1" using bnd0 lastin fl by metis
        have bl: "set (butlast ranges) \<subseteq> set ranges"
          by (meson in_set_butlastD subsetI)
        have sw: "sorted_wrt (\<lambda>a b. LastPacketNumber b < FirstPacketNumber a) (butlast ranges @ [last ranges])"
          using wf0 by (simp only: append_butlast_last_id[OF ne] nack_wf_def)
        have fl': "FirstPacketNumber ?l = i" using fl by simp
        have "i \<le> i + 1" using ilt by simp
        also have "i + 1 \<le> LastPacketNumber (last ranges)"
          using wf0 lastin fl by (auto simp: nack_wf_def)
        finally have ile: "i \<le> LastPacketNumber (last ranges)" .
        have wf: "nack_wf ?rs"
          unfolding nack_wf_def
        proof (intro conjI ballI)
          fix r assume "r \<in> set ?rs"
          then consider (old) "r \<in> set (butlast ranges)" | (new) "r = ?l" by auto
          then show "FirstPacketNumber r \<le> LastPacketNumber r"
          proof cases
            case old
            then show ?thesis using \<open>nack_wf ranges\<close> bl by (auto simp: nack_wf_def)
          next
            case new
            then show ?thesis using ile fl by simp
          qed
        next
          show "sorted_wrt (\<lambda>a b. LastPacketNumber b < FirstPacketNumber a) ?rs"
            using sw by (simp add: sorted_wrt_append)
        qed
        have bnd: "\<forall>r\<in>set ?rs. highestInOrderObserved h < FirstPacketNumber r \<and> i - 1 < FirstPacketNumber r \<and> LastPacketNumber r \<le> L"
        proof
          fix r assume "r \<in> set ?rs"
          then consider (old) "r \<in> set (butlast ranges)" | (new) "r = ?l" by auto
          then show "highestInOrderObserved h < FirstPacketNumber r \<and> i - 1 < FirstPacketNumber r \<and> LastPacketNumber r \<le> L"
          proof cases
            case old
            then have "r \<in> set ranges" using bl by auto
            then show ?thesis using bnd0 lt by fastforce
          next
            case new
            then show ?thesis using fl True lt bnd0 lastin by simp
          qed
        qed
        have "\<exists>rs' e'. getNackRanges_loop Add h (i - 1) ?rs True entropy = Some (rs', e') \<and> nack_wf rs' \<and>
     (\<forall>r\<in>set rs'. highestInOrderObserved h < FirstPacketNumber r \<and> LastPacketNumber r \<le> L)"
          apply (rule IH2[OF True None _ ne wf bnd le])
          using inR fl by auto
        then show ?thesis using True None inR ne by (subst getNackRanges_loop.simps) simp
      qed
    qed
  qed
qed

lemma getNackRanges_total:
  "\<exists>rs e'. getNackRanges Add h = Some (rs, e') \<and> nack_wf rs \<and>
     (\<forall>r\<in>set rs. highestInOrderObserved h < FirstPacketNumber r \<and>
                   LastPacketNumber r \<le> largestObserved h)"
  unfolding getNackRanges_def
  by (rule getNackRanges_loop_inv) (simp_all add: nack_wf_def)

lemma cache_inv_ReceivedPacket:
  "cache_inv h \<Longrightarrow> cache_inv (snd (ReceivedPacket Add now n e h))"
  by (auto simp: cache_inv_def ReceivedPacket_def Let_def split: option.splits)

lemma cache_inv_ReceivedStopWaiting:
  "cache_inv h \<Longrightarrow> cache_inv (snd (ReceivedStopWaiting f h))"
  by (auto simp: cache_inv_def ReceivedStopWaiting_def split: option.splits)

lemma GetAckFrame_frame:
  assumes "cache_inv h" and "GetAckFrame Add dq h = (Some f, er, h')"
  shows "nack_wf (NackRanges f) \<and>
         (\<forall>r\<in>set (NackRanges f).
            LastPacketNumber r \<le> largestObserved h \<and>
            (currentAckFrame h = None \<longrightarrow> highestInOrderObserved h < FirstPacketNumber r))"
proof (cases "stateChanged h")
  case False
  then show ?thesis using assms(2) by (simp add: GetAckFrame_def)
next
  case sc: True
  define h1 where "h1 = (if dq then h\<lparr>stateChanged := False\<rparr> else h)"
  have h1: "currentAckFrame h1 = currentAckFrame h" "largestObserved h1 = largestObserved h"
    "highestInOrderObserved h1 = highestInOrderObserved h" "packetHistory h1 = packetHistory h"
    by (simp_all add: h1_def)
  show ?thesis
  proof (cases "currentAckFrame h")
    case (Some g)
    then have "f = g" using assms(2) sc h1 by (simp add: GetAckFrame_def Let_def h1_def[symmetric])
    then show ?thesis using assms(1) Some by (simp add: cache_inv_def)
  next
    case None
    obtain rs e' where g: "getNackRanges Add h1 = Some (rs, e')" and wf: "nack_wf rs"
      and bnd: "\<forall>r\<in>set rs. highestInOrderObserved h1 < FirstPacketNumber r \<and>
                   LastPacketNumber r \<le> largestObserved h1"
      using getNackRanges_total[of Add h1] by blast
    have "NackRanges f = rs"
      using assms(2) sc None h1 g
      by (auto simp: GetAckFrame_def Let_def h1_def[symmetric] split: option.splits)
    then show ?thesis using wf bnd h1 by simp
  qed
qed

lemma cache_inv_GetAckFrame:
  assumes "cache_inv h"
  shows "cache_inv (snd (snd (GetAckFrame Add dq h)))"
proof (cases "stateChanged h")
  case False
  then show ?thesis using assms by (simp add: GetAckFrame_def)
next
  case sc: True
  define h1 where "h1 = (if dq then h\<lparr>stateChanged := False\<rparr> else h)"
  have h1: "currentAckFrame h1 = currentAckFrame h" "largestObserved h1 = largestObserved h"
    by (simp_all add: h1_def)
  have c1: "cache_inv h1" using assms by (auto simp: cache_inv_def h1 split: option.splits)
  obtain rs e' where g: "getNackRanges Add h1 = Some (rs, e')" and wf: "nack_wf rs"
      and bnd: "\<forall>r\<in>set rs. highestInOrderObserved h1 < FirstPacketNumber r \<and>
                   LastPacketNumber r \<le> largestObserved h1"
      using getNackRanges_total[of Add h1] by blast
  show ?thesis
    using sc c1 g wf bnd
    by (auto simp: GetAckFrame_def Let_def h1_def[symmetric] cache_inv_def split: option.splits)
qed

lemma rph_reachable_cache_inv: "rph_reachable Add h \<Longrightarrow> cache_inv h"
proof (induction rule: rph_reachable.induct)
  case reach_new
  then show ?case by (simp add: cache_inv_def NewReceivedPacketHandler_def)
next
  case (reach_packet h now n e)
  then show ?case by (simp add: cache_inv_ReceivedPacket)
next
  case (reach_stop h f)
  then show ?case by (simp add: cache_inv_ReceivedStopWaiting)
next
  case (reach_ack h dq)
  then show ?case by (simp add: cache_inv_GetAckFrame)
qed

text \<open>
  C5 (as amended).  In every handler state reachable from a new handler, a frame that
  \<^verbatim>\<open>GetAckFrame\<close> returns lists its NACK ranges in strictly descending order, pairwise
  disjoint, each non-empty, and each ending at or below \<^verbatim>\<open>largestObserved\<close>.  When the
  call builds the frame (no cached frame), every range also starts strictly above
  \<^verbatim>\<open>highestInOrderObserved\<close>.
\<close>

theorem GetAckFrame_nack_ranges:
  assumes "rph_reachable Add h" and "fst (GetAckFrame Add dq h) = Some f"
  shows "nack_wf (NackRanges f) \<and>
         (\<forall>r\<in>set (NackRanges f).
            LastPacketNumber r \<le> largestObserved h \<and>
            (currentAckFrame h = None \<longrightarrow> highestInOrderObserved h < FirstPacketNumber r))"
proof -
  obtain er h' where "GetAckFrame Add dq h = (Some f, er, h')"
    using assms(2) by (metis prod.collapse)
  with rph_reachable_cache_inv[OF assms(1)] show ?thesis
    by (rule GetAckFrame_frame)
qed

theorem GetAckFrame_nack_ranges_witness:
  "rph_reachable Add_example
     (snd (ReceivedPacket Add_example 10 3 False NewReceivedPacketHandler))
   \<and> fst (GetAckFrame Add_example False
        (snd (ReceivedPacket Add_example 10 3 False NewReceivedPacketHandler)))
      = Some \<lparr>ackLargestObserved = 3, ackEntropy = 0,
              NackRanges = [\<lparr>FirstPacketNumber = 1, LastPacketNumber = 2\<rparr>],
              PacketReceivedTime = 10\<rparr>
   \<and> nack_wf [\<lparr>FirstPacketNumber = 1, LastPacketNumber = 2\<rparr>]
   \<and> LastPacketNumber \<lparr>FirstPacketNumber = 1, LastPacketNumber = 2\<rparr>
        \<le> largestObserved (snd (ReceivedPacket Add_example 10 3 False NewReceivedPacketHandler))
   \<and> highestInOrderObserved (snd (ReceivedPacket Add_example 10 3 False NewReceivedPacketHandler))
        < FirstPacketNumber \<lparr>FirstPacketNumber = 1, LastPacketNumber = 2\<rparr>"
proof -
  let ?h = "snd (ReceivedPacket Add_example 10 3 False NewReceivedPacketHandler)"
  let ?f = "\<lparr>ackLargestObserved = 3, ackEntropy = 0,
             NackRanges = [\<lparr>FirstPacketNumber = 1, LastPacketNumber = 2\<rparr>],
             PacketReceivedTime = 10\<rparr>"
  have r: "rph_reachable Add_example ?h"
    by (rule reach_packet[OF reach_new])
  have g: "fst (GetAckFrame Add_example False ?h) = Some ?f"
    by code_simp
  have c: "currentAckFrame ?h = None"
    by (simp add: ReceivedPacket_def NewReceivedPacketHandler_def Let_def)
  show ?thesis
    using r g c GetAckFrame_nack_ranges[OF r g] by simp
qed

text \<open>
  C5 as stated fails for a cached frame: after packet 3 arrives the frame built
  by \<^verbatim>\<open>GetAckFrame(false)\<close> reports packets 1 to 2 missing and is cached; a STOP_WAITING
  frame with least unacked 3 then raises \<^verbatim>\<open>highestInOrderObserved\<close> to 2 without
  dropping the cached frame, and the next \<^verbatim>\<open>GetAckFrame(false)\<close> returns it: its range
  1 to 2 is not strictly above \<^verbatim>\<open>highestInOrderObserved = 2\<close>.
\<close>

theorem GetAckFrame_cached_counterexample:
  "fst (GetAckFrame Add_example False
     (snd (ReceivedStopWaiting \<lparr>LeastUnacked = 3, swfEntropy = 0, swfPacketNumber = 0, PacketNumberLen = 0\<rparr>
        (snd (snd (GetAckFrame Add_example False
           (snd (ReceivedPacket Add_example 10 3 False NewReceivedPacketHandler))))))))
     = Some \<lparr>ackLargestObserved = 3, ackEntropy = 0,
             NackRanges = [\<lparr>FirstPacketNumber = 1, LastPacketNumber = 2\<rparr>],
             PacketReceivedTime = 10\<rparr>
   \<and> highestInOrderObserved
       (snd (ReceivedStopWaiting \<lparr>LeastUnacked = 3, swfEntropy = 0, swfPacketNumber = 0, PacketNumberLen = 0\<rparr>
          (snd (snd (GetAckFrame Add_example False
             (snd (ReceivedPacket Add_example 10 3 False NewReceivedPacketHandler)))))))
     = 2
   \<and> \<not> (2 :: PacketNumber) < FirstPacketNumber \<lparr>FirstPacketNumber = 1, LastPacketNumber = 2\<rparr>"
  by code_simp

section \<open>Properties of the outgoing-packet handler\<close>

lemma SentPacket_success:
  assumes "fst (SentPacket Add p h) = None"
  shows "pktPacketNumber p = lastSentPacketNumber h + 1
       \<and> pktPacketNumber p \<notin> dom (sentPacketHistory h)
       \<and> lastSentPacketNumber (snd (SentPacket Add p h)) = pktPacketNumber p
       \<and> dom (sentPacketHistory (snd (SentPacket Add p h)))
           = insert (pktPacketNumber p) (dom (sentPacketHistory h))"
  using assms
  by (auto simp: SentPacket_def recordPacket_def split: if_splits option.splits)

lemma SentPacket_failure:
  assumes "fst (SentPacket Add p h) \<noteq> None"
  shows "snd (SentPacket Add p h) = h"
  using assms
  by (auto simp: SentPacket_def recordPacket_def split: if_splits option.splits)

lemma word_succ_less:
  fixes a :: PacketNumber
  assumes "unat a + 1 < 2 ^ 64"
  shows "a < a + 1" and "unat (a + 1) = unat a + 1"
proof -
  show u: "unat (a + 1) = unat a + 1"
    using assms by (simp add: unat_word_ariths)
  then show "a < a + 1"
    by (simp add: word_less_nat_alt)
qed

lemma SentPackets_increasing:
  assumes "fst (SentPackets Add ps h) = None"
    and "unat (lastSentPacketNumber h) + length ps < 2 ^ 64"
  shows "sorted_wrt (<) (map pktPacketNumber ps)
       \<and> (\<forall>p\<in>set ps. lastSentPacketNumber h < pktPacketNumber p)
       \<and> dom (sentPacketHistory (snd (SentPackets Add ps h)))
           = dom (sentPacketHistory h) \<union> pktPacketNumber ` set ps"
  using assms
proof (induction ps arbitrary: h)
  case Nil
  then show ?case by simp
next
  case (Cons p ps)
  obtain e h1 where sp: "SentPacket Add p h = (e, h1)" by (cases "SentPacket Add p h")
  have e: "e = None" using Cons.prems(1) sp by (cases e) auto
  have rest: "fst (SentPackets Add ps h1) = None" and snd_eq: "snd (SentPackets Add (p # ps) h) = snd (SentPackets Add ps h1)"
    using Cons.prems(1) sp e by auto
  have s: "pktPacketNumber p = lastSentPacketNumber h + 1"
    "lastSentPacketNumber h1 = pktPacketNumber p"
    "dom (sentPacketHistory h1) = insert (pktPacketNumber p) (dom (sentPacketHistory h))"
    using SentPacket_success[of Add p h] sp e by auto
  have nw: "unat (lastSentPacketNumber h) + 1 < 2 ^ 64" using Cons.prems(2) by simp
  have lt: "lastSentPacketNumber h < pktPacketNumber p"
    and u: "unat (pktPacketNumber p) = unat (lastSentPacketNumber h) + 1"
    using word_succ_less[OF nw] s(1) by auto
  have "unat (lastSentPacketNumber h1) + length ps < 2 ^ 64"
    using Cons.prems(2) s(2) u by simp
  from Cons.IH[OF rest this]
  have ih: "sorted_wrt (<) (map pktPacketNumber ps)"
    "\<forall>q\<in>set ps. pktPacketNumber p < pktPacketNumber q"
    "dom (sentPacketHistory (snd (SentPackets Add ps h1)))
           = dom (sentPacketHistory h1) \<union> pktPacketNumber ` set ps"
    using s(2) by auto
  show ?case
    using ih lt s(3) snd_eq by (auto simp del: SentPackets.simps)
qed

text \<open>
  C6.  \<^verbatim>\<open>SentPacket\<close> returns an error and leaves the handler unchanged whenever the
  packet's number is already a key of the history or does not exceed
  \<^verbatim>\<open>lastSentPacketNumber\<close>; and when every call of a sequence of \<^verbatim>\<open>SentPacket\<close> calls
  succeeds, the packet numbers it recorded are strictly increasing, pairwise distinct,
  all above the previous \<^verbatim>\<open>lastSentPacketNumber\<close>, and exactly the keys added to the
  history.  The hypothesis keeps \<^verbatim>\<open>lastSentPacketNumber + 1\<close> from wrapping around
  \<open>2 ^ 64\<close> during the calls.
\<close>

theorem SentPacket_no_reuse:
  assumes "unat (lastSentPacketNumber h) + length ps < 2 ^ 64 - 1"
  shows "(pktPacketNumber packet \<in> dom (sentPacketHistory h)
            \<or> pktPacketNumber packet \<le> lastSentPacketNumber h
          \<longrightarrow> (fst (SentPacket Add packet h) = Some PacketNumberAlreadyExists
                \<or> fst (SentPacket Add packet h) = Some PacketNumberNotIncreasedByOne)
              \<and> snd (SentPacket Add packet h) = h)
       \<and> (fst (SentPackets Add ps h) = None
          \<longrightarrow> sorted_wrt (<) (map pktPacketNumber ps)
            \<and> distinct (map pktPacketNumber ps)
            \<and> (\<forall>p\<in>set ps. lastSentPacketNumber h < pktPacketNumber p)
            \<and> dom (sentPacketHistory (snd (SentPackets Add ps h)))
                = dom (sentPacketHistory h) \<union> pktPacketNumber ` set ps)"
proof (intro conjI impI)
  assume a: "pktPacketNumber packet \<in> dom (sentPacketHistory h)
            \<or> pktPacketNumber packet \<le> lastSentPacketNumber h"
  have nw: "unat (lastSentPacketNumber h) + 1 < 2 ^ 64"
    using assms by simp
  have "pktPacketNumber packet \<le> lastSentPacketNumber h
          \<Longrightarrow> lastSentPacketNumber h + 1 \<noteq> pktPacketNumber packet"
    using word_succ_less(1)[OF nw] by auto
  with a
  show "fst (SentPacket Add packet h) = Some PacketNumberAlreadyExists
          \<or> fst (SentPacket Add packet h) = Some PacketNumberNotIncreasedByOne"
    by (auto simp: SentPacket_def)
  then have "fst (SentPacket Add packet h) \<noteq> None"
    by auto
  then show "snd (SentPacket Add packet h) = h"
    by (rule SentPacket_failure)
next
  assume ok: "fst (SentPackets Add ps h) = None"
  have nw: "unat (lastSentPacketNumber h) + length ps < 2 ^ 64"
    using assms by simp
  note r = SentPackets_increasing[OF ok nw]
  show "sorted_wrt (<) (map pktPacketNumber ps)"
    using r by simp
  then show "distinct (map pktPacketNumber ps)"
    using strict_sorted_iff by blast
  show "\<forall>p\<in>set ps. lastSentPacketNumber h < pktPacketNumber p"
    using r by simp
  show "dom (sentPacketHistory (snd (SentPackets Add ps h)))
          = dom (sentPacketHistory h) \<union> pktPacketNumber ` set ps"
    using r by simp
qed

theorem SentPacket_no_reuse_witness:
  "unat (lastSentPacketNumber NewOutgoingPacketAckHandler)
     + length [Packet_example 1 True, Packet_example 2 False] < 2 ^ 64 - 1
   \<and> pktPacketNumber (Packet_example 0 False) \<le> lastSentPacketNumber NewOutgoingPacketAckHandler
   \<and> fst (SentPacket Add_example (Packet_example 0 False) NewOutgoingPacketAckHandler)
      = Some PacketNumberNotIncreasedByOne
   \<and> snd (SentPacket Add_example (Packet_example 0 False) NewOutgoingPacketAckHandler)
      = NewOutgoingPacketAckHandler
   \<and> fst (SentPackets Add_example [Packet_example 1 True, Packet_example 2 False]
        NewOutgoingPacketAckHandler) = None
   \<and> map pktPacketNumber [Packet_example 1 True, Packet_example 2 False] = [1, 2]
   \<and> sorted_wrt (<) (map pktPacketNumber [Packet_example 1 True, Packet_example 2 False])
   \<and> dom (sentPacketHistory (snd (SentPackets Add_example
        [Packet_example 1 True, Packet_example 2 False] NewOutgoingPacketAckHandler))) = {1, 2}"
proof -
  let ?ps = "[Packet_example 1 True, Packet_example 2 False]"
  have n: "unat (lastSentPacketNumber NewOutgoingPacketAckHandler) + length ?ps < 2 ^ 64 - 1"
    by (simp add: NewOutgoingPacketAckHandler_def)
  have l: "pktPacketNumber (Packet_example 0 False)
             \<le> lastSentPacketNumber NewOutgoingPacketAckHandler"
    by (simp add: NewOutgoingPacketAckHandler_def Packet_example_def)
  have ok: "fst (SentPackets Add_example ?ps NewOutgoingPacketAckHandler) = None"
    by (simp add: SentPacket_def recordPacket_def NewOutgoingPacketAckHandler_def
        Packet_example_def)
  have d: "dom (sentPacketHistory NewOutgoingPacketAckHandler) = {}"
    by (simp add: NewOutgoingPacketAckHandler_def)
  have m: "map pktPacketNumber ?ps = [1, 2]"
    by (simp add: Packet_example_def)
  have e: "fst (SentPacket Add_example (Packet_example 0 False) NewOutgoingPacketAckHandler)
             = Some PacketNumberNotIncreasedByOne"
    by (simp add: SentPacket_def NewOutgoingPacketAckHandler_def Packet_example_def)
  show ?thesis
    using n l ok d m e SentPacket_no_reuse[OF n, of "Packet_example 0 False" Add_example]
    by auto
qed

section \<open>Properties of the crypto setup\<close>

lemma crypto_step_forward_secure:
  assumes "forwardSecureAEAD h = Some fs" and "receivedForwardSecurePacket h"
  shows "fst (crypto_step nullAEAD c h) = served_by fs c
       \<and> forwardSecureAEAD (snd (crypto_step nullAEAD c h)) = Some fs
       \<and> receivedForwardSecurePacket (snd (crypto_step nullAEAD c h))"
  using assms
  by (cases c) (auto simp: Open_def Seal_def split: sum.splits)

lemma crypto_run_forward_secure:
  assumes "forwardSecureAEAD h = Some fs" and "receivedForwardSecurePacket h"
  shows "crypto_run nullAEAD cs h = map (served_by fs) cs"
  using assms
proof (induction cs arbitrary: h)
  case Nil
  then show ?case by simp
next
  case (Cons c cs)
  from crypto_step_forward_secure[OF Cons.prems, of nullAEAD c]
  show ?case using Cons.IH by (simp del: crypto_step.simps)
qed

text \<open>
  C10.  Once \<^verbatim>\<open>Open\<close> has decrypted a packet with the forward-secure AEAD, every later
  \<^verbatim>\<open>Open\<close> call returns exactly what the forward-secure AEAD returns, a decryption
  failure included (no retry with the secure or the null AEAD), and every later \<^verbatim>\<open>Seal\<close>
  call returns what the forward-secure AEAD seals, whatever the secure and null AEADs
  are and whatever calls of \<^verbatim>\<open>Open\<close> and \<^verbatim>\<open>Seal\<close> come in between.
\<close>

theorem Open_forward_secure_monotone:
  assumes "forwardSecureAEAD h = Some fs"
    and "aeadOpen fs pn ad ct = Inr res"
  shows "fst (Open nullAEAD pn ad ct h) = Inr res
       \<and> crypto_run nullAEAD cs (snd (Open nullAEAD pn ad ct h)) = map (served_by fs) cs"
proof -
  have o: "Open nullAEAD pn ad ct h = (Inr res, h\<lparr>receivedForwardSecurePacket := True\<rparr>)"
    using assms by (simp add: Open_def)
  have "crypto_run nullAEAD cs (h\<lparr>receivedForwardSecurePacket := True\<rparr>) = map (served_by fs) cs"
    by (rule crypto_run_forward_secure) (simp_all add: assms(1))
  then show ?thesis using o by simp
qed

theorem Open_forward_secure_monotone_witness:
  "forwardSecureAEAD
     \<lparr>secureAEAD = Some (tagAEAD 1), forwardSecureAEAD = Some (tagAEAD 2),
      receivedForwardSecurePacket = False, receivedSecurePacket = True\<rparr> = Some (tagAEAD 2)
   \<and> aeadOpen (tagAEAD 2) 5 [] [9, 2] = Inr [9]
   \<and> fst (Open (tagAEAD 0) 5 [] [9, 2]
        \<lparr>secureAEAD = Some (tagAEAD 1), forwardSecureAEAD = Some (tagAEAD 2),
         receivedForwardSecurePacket = False, receivedSecurePacket = True\<rparr>) = Inr [9]
   \<and> crypto_run (tagAEAD 0) [CallOpen 6 [] [7, 1], CallOpen 7 [] [8, 0], CallSeal 8 [] [4]]
        (snd (Open (tagAEAD 0) 5 [] [9, 2]
           \<lparr>secureAEAD = Some (tagAEAD 1), forwardSecureAEAD = Some (tagAEAD 2),
            receivedForwardSecurePacket = False, receivedSecurePacket = True\<rparr>))
      = [Opened (Inl ''authentication failed''), Opened (Inl ''authentication failed''),
         Sealed (Some [4, 2])]"
proof -
  let ?h = "\<lparr>secureAEAD = Some (tagAEAD 1), forwardSecureAEAD = Some (tagAEAD 2),
             receivedForwardSecurePacket = False, receivedSecurePacket = True\<rparr>"
  have a: "forwardSecureAEAD ?h = Some (tagAEAD 2)"
    by simp
  have b: "aeadOpen (tagAEAD 2) 5 [] [9, 2] = Inr [9]"
    by (simp add: tagAEAD_def)
  show ?thesis
    using a b
      Open_forward_secure_monotone[OF a b, of "tagAEAD 0"
        "[CallOpen 6 [] [7, 1], CallOpen 7 [] [8, 0], CallSeal 8 [] [4]]"]
    by (simp add: tagAEAD_def)
qed

section \<open>Properties of the frame codecs\<close>

lemma ff32: "(0xff :: 32 word) = mask 8"
  by (simp add: mask_eq_exp_minus_1)
lemma ff16: "(0xff :: 16 word) = mask 8"
  by (simp add: mask_eq_exp_minus_1)

lemma low_byte32: "(ucast ((x :: 32 word) AND 0xff) :: 8 word) = ucast x"
  unfolding ff32 by (rule bit_word_eqI) (auto simp add: bit_simps)

lemma low_byte16: "(ucast ((x :: 16 word) AND 0xff) :: 8 word) = ucast x"
  unfolding ff16 by (rule bit_word_eqI) (auto simp add: bit_simps)

lemma le32_or:
  fixes i :: "32 word"
  shows "(ucast (ucast i :: 8 word) :: 32 word)
         OR push_bit 8 (ucast (ucast (drop_bit 8 i) :: 8 word))
         OR push_bit 16 (ucast (ucast (drop_bit 16 i) :: 8 word))
         OR push_bit 24 (ucast (ucast (drop_bit 24 i) :: 8 word)) = i"
  apply (rule bit_word_eqI)
  apply (auto simp add: bit_simps)
  subgoal for n by (cases "24 \<le> n") simp_all
  done

lemma le32_plus:
  fixes i :: "32 word"
  shows "(ucast (ucast i :: 8 word) :: 32 word)
         + push_bit 8 (ucast (ucast (drop_bit 8 i) :: 8 word))
         + push_bit 16 (ucast (ucast (drop_bit 16 i) :: 8 word))
         + push_bit 24 (ucast (ucast (drop_bit 24 i) :: 8 word)) = i"
proof -
  let ?a = "(ucast (ucast i :: 8 word) :: 32 word)"
  let ?b = "push_bit 8 (ucast (ucast (drop_bit 8 i) :: 8 word)) :: 32 word"
  let ?c = "push_bit 16 (ucast (ucast (drop_bit 16 i) :: 8 word)) :: 32 word"
  let ?d = "push_bit 24 (ucast (ucast (drop_bit 24 i) :: 8 word)) :: 32 word"
  have ab: "?a + ?b = ?a OR ?b"
    by (rule disjunctive_add_eq_or, rule bit_word_eqI) (auto simp add: bit_simps)
  have abc: "(?a OR ?b) + ?c = (?a OR ?b) OR ?c"
    by (rule disjunctive_add_eq_or, rule bit_word_eqI) (auto simp add: bit_simps)
  have abcd: "((?a OR ?b) OR ?c) + ?d = ((?a OR ?b) OR ?c) OR ?d"
    by (rule disjunctive_add_eq_or, rule bit_word_eqI) (auto simp add: bit_simps)
  have "?a + ?b + ?c + ?d = ((?a OR ?b) OR ?c) OR ?d"
    by (simp only: ab abc abcd)
  also have "\<dots> = i"
    by (simp only: or.assoc le32_or)
  finally show ?thesis .
qed

lemma le16_plus:
  fixes i :: "16 word"
  shows "(ucast (ucast i :: 8 word) :: 16 word)
         + push_bit 8 (ucast (ucast (drop_bit 8 i) :: 8 word)) = i"
proof -
  let ?a = "(ucast (ucast i :: 8 word) :: 16 word)"
  let ?b = "push_bit 8 (ucast (ucast (drop_bit 8 i) :: 8 word)) :: 16 word"
  have ab: "?a + ?b = ?a OR ?b"
    by (rule disjunctive_add_eq_or, rule bit_word_eqI) (auto simp add: bit_simps)
  have "?a OR ?b = i"
    by (rule bit_word_eqI) (auto simp add: bit_simps)
  then show ?thesis
    by (simp only: ab)
qed

lemma ReadByte_Cons: "ReadByte (c # r) = Inr (c, r)"
  by (simp add: ReadByte_def)

lemma WriteUint32_bytes:
  "WriteUint32 b i = b @ [ucast i, ucast (drop_bit 8 i), ucast (drop_bit 16 i), ucast (drop_bit 24 i)]"
  by (simp add: WriteUint32_def WriteByte_def low_byte32)

lemma WriteUint16_bytes:
  "WriteUint16 b i = b @ [ucast i, ucast (drop_bit 8 i)]"
  by (simp add: WriteUint16_def WriteByte_def low_byte16)

lemma ReadUint32_le:
  "ReadUint32 (ucast i # ucast (drop_bit 8 i) # ucast (drop_bit 16 i) # ucast (drop_bit 24 i) # r)
     = Inr (i, r)"
  by (simp add: ReadUint32_def ReadByte_Cons le32_plus)

lemma ReadUint16_le:
  "ReadUint16 (ucast i # ucast (drop_bit 8 i) # r) = Inr (i, r)"
  by (simp add: ReadUint16_def ReadByte_Cons le16_plus)

lemma foldl_WriteByte: "foldl WriteByte b xs = b @ xs"
  by (induction xs arbitrary: b) (simp_all add: WriteByte_def)

lemma ReadFull_exact: "ReadFull (xs @ r) (length xs) = Inr (xs, r)"
  by (simp add: ReadFull_def)

lemma ConnectionCloseFrame_roundtrip:
  assumes "length (ReasonPhrase f) \<le> 65535"
  shows "fst (ConnectionCloseFrame_Write [] f) = None
       \<and> ParseConnectionCloseFrame (snd (ConnectionCloseFrame_Write [] f) @ rest) = Inr (f, rest)"
proof -
  have u: "unat (of_nat (length (ReasonPhrase f)) :: 16 word) = length (ReasonPhrase f)"
    using assms by (simp add: unat_of_nat)
  have w: "ConnectionCloseFrame_Write [] f =
      (None, 0x02 # ([ucast (ErrorCode f), ucast (drop_bit 8 (ErrorCode f)),
                ucast (drop_bit 16 (ErrorCode f)), ucast (drop_bit 24 (ErrorCode f))]
         @ ([ucast (of_nat (length (ReasonPhrase f)) :: 16 word),
             ucast (drop_bit 8 (of_nat (length (ReasonPhrase f)) :: 16 word))]
         @ (ReasonPhrase f))))"
    using assms
    by (simp add: ConnectionCloseFrame_Write_def Let_def WriteUint32_bytes WriteUint16_bytes
        foldl_WriteByte WriteByte_def u)
  show ?thesis
    unfolding w
    by (simp add: ParseConnectionCloseFrame_def ReadByte_Cons ReadUint32_le ReadUint16_le u
          ReadFull_exact)
qed

lemma le32_xor64:
  fixes i :: "32 word"
  shows "(((ucast (ucast i :: 8 word) :: 64 word)
         XOR push_bit 8 (ucast (ucast (drop_bit 8 i) :: 8 word)))
         XOR push_bit 16 (ucast (ucast (drop_bit 16 i) :: 8 word)))
         XOR push_bit 24 (ucast (ucast (drop_bit 24 i) :: 8 word)) = ucast i"
  apply (rule bit_word_eqI)
  apply (auto simp add: bit_simps)
  subgoal for n using bit_imp_le_length[of i n] by simp
  done

lemma ReadUintN_4:
  "ReadUintN (b0 # b1 # b2 # b3 # r) 4 =
     Inr ((((0 XOR push_bit 0 (ucast b0)) XOR push_bit 8 (ucast b1)) XOR push_bit 16 (ucast b2))
            XOR push_bit 24 (ucast b3), r)"
  by (simp add: ReadUintN_def ReadUintN_loop.simps[of _ 4] ReadByte_Cons)

lemma AckFrame_Write_bytes:
  "AckFrame_Write [] f =
     [0x48, Entropy f,
      ucast (ucast (LargestObserved f) :: 32 word),
      ucast (drop_bit 8 (ucast (LargestObserved f) :: 32 word)),
      ucast (drop_bit 16 (ucast (LargestObserved f) :: 32 word)),
      ucast (drop_bit 24 (ucast (LargestObserved f) :: 32 word)),
      1, 0, 1, 0, 0, 0, 0, 0]"
  by (simp add: AckFrame_Write_def Let_def WriteUint32_bytes WriteUint16_bytes WriteByte_def)

lemma ReadUint16_1: "ReadUint16 (1 # 0 # r) = Inr (1, r)"
  by (simp add: ReadUint16_def ReadByte_Cons)

lemma ReadUint32_0: "ReadUint32 (0 # 0 # 0 # 0 # r) = Inr (0, r)"
  by (simp add: ReadUint32_def ReadByte_Cons)

lemma AckFrame_roundtrip:
  "ParseAckFrame (AckFrame_Write [] f @ rest) =
     Inr (f\<lparr>LargestObserved := ucast (ucast (LargestObserved f) :: 32 word), DelayTime := 1\<rparr>, rest)"
proof -
  have t1: "(0x48 :: byte) AND 0x20 \<noteq> 0x20" by simp
  have t2: "(0x48 :: byte) AND 0x10 \<noteq> 0x10" by simp
  have t3: "2 * drop_bit 2 ((0x48 :: byte) AND 0x0C) = 4" by simp
  show ?thesis
    unfolding AckFrame_Write_bytes
    by (simp add: ParseAckFrame_def Let_def ReadByte_Cons t1 t2 t3 ReadUintN_4 ReadUint16_1
          ReadUint32_0 le32_xor64)
qed

text \<open>
  C2 (as amended).  A CONNECTION_CLOSE frame whose reason phrase has at most 65535 bytes
  is written without error, and parsing the bytes written (whatever follows them) gives
  back the same frame, error code and reason phrase, and leaves what follows unread.
  An ACK frame written and parsed keeps its entropy byte; its largest observed comes
  back reduced to its low 32 bits, and its delay time comes back as 1 whatever it was.
\<close>

theorem frame_codec_roundtrip:
  "(length (ReasonPhrase c) \<le> 65535 \<longrightarrow>
      fst (ConnectionCloseFrame_Write [] c) = None
      \<and> ParseConnectionCloseFrame (snd (ConnectionCloseFrame_Write [] c) @ rest) = Inr (c, rest))
   \<and> ParseAckFrame (AckFrame_Write [] a @ rest) =
       Inr (a\<lparr>LargestObserved := ucast (ucast (LargestObserved a) :: 32 word),
              DelayTime := 1\<rparr>, rest)"
  using ConnectionCloseFrame_roundtrip[of c rest] AckFrame_roundtrip[of a rest]
  by blast

theorem frame_codec_roundtrip_witness:
  "length (ReasonPhrase \<lparr>ErrorCode = 0x1234, ReasonPhrase = [0x66, 0x6f, 0x6f]\<rparr>) \<le> 65535
   \<and> fst (ConnectionCloseFrame_Write []
        \<lparr>ErrorCode = 0x1234, ReasonPhrase = [0x66, 0x6f, 0x6f]\<rparr>) = None
   \<and> ParseConnectionCloseFrame
        (snd (ConnectionCloseFrame_Write []
           \<lparr>ErrorCode = 0x1234, ReasonPhrase = [0x66, 0x6f, 0x6f]\<rparr>) @ [0xAA])
      = Inr (\<lparr>ErrorCode = 0x1234, ReasonPhrase = [0x66, 0x6f, 0x6f]\<rparr>, [0xAA])
   \<and> ParseAckFrame
        (AckFrame_Write [] \<lparr>Entropy = 2, LargestObserved = 0x100000005, DelayTime = 7\<rparr> @ [0xAA])
      = Inr (\<lparr>Entropy = 2, LargestObserved = 5, DelayTime = 1\<rparr>, [0xAA])"
  using frame_codec_roundtrip[of "\<lparr>ErrorCode = 0x1234, ReasonPhrase = [0x66, 0x6f, 0x6f]\<rparr>"
      "[0xAA]" "\<lparr>Entropy = 2, LargestObserved = 0x100000005, DelayTime = 7\<rparr>"]
  by simp

text \<open>
  C2 as stated fails for ACK frames: \<^verbatim>\<open>Write\<close> encodes the constant 1 where the
  delay time goes, so a frame with delay time 0 is parsed back with delay time 1.
\<close>

theorem AckFrame_roundtrip_counterexample:
  "ParseAckFrame (AckFrame_Write [] \<lparr>Entropy = 0, LargestObserved = 1, DelayTime = 0\<rparr>)
     = Inr (\<lparr>Entropy = 0, LargestObserved = 1, DelayTime = 1\<rparr>, [])
   \<and> \<lparr>Entropy = 0, LargestObserved = 1, DelayTime = 1\<rparr>
     \<noteq> \<lparr>Entropy = 0, LargestObserved = (1 :: PacketNumber), DelayTime = (0 :: 16 word)\<rparr>"
  using AckFrame_roundtrip[of "\<lparr>Entropy = 0, LargestObserved = 1, DelayTime = 0\<rparr>" "[]"]
  by simp

section \<open>Properties of the connection parameters manager\<close>

lemma SetFromMap_idle_unchanged:
  assumes "TagICSL \<notin> fst ` set kvs"
  shows "idleConnectionStateLifetime (snd (SetFromMap MaxIdle kvs h)) = idleConnectionStateLifetime h"
  using assms
proof (induction kvs arbitrary: h)
  case Nil
  then show ?case by simp
next
  case (Cons kv kvs)
  obtain key val where kv: "kv = (key, val)" by (cases kv)
  show ?case using Cons kv
    by (cases key) (auto split: sum.splits)
qed

lemma SetFromMap_idle:
  assumes "distinct (map fst kvs)" and "(TagICSL, v) \<in> set kvs"
    and "fst (SetFromMap MaxIdle kvs h) = None"
  shows "\<exists>c r. ReadUint32 v = Inr (c, r) \<and>
     idleConnectionStateLifetime (snd (SetFromMap MaxIdle kvs h)) = min (uint c * Second) MaxIdle"
  using assms
proof (induction kvs arbitrary: h)
  case Nil
  then show ?case by simp
next
  case (Cons kv kvs)
  obtain key val where kv: "kv = (key, val)" by (cases kv)
  show ?case
  proof (cases "kv = (TagICSL, v)")
    case True
    then have k: "key = TagICSL" "val = v" using kv by auto
    have notin: "TagICSL \<notin> fst ` set kvs" using Cons.prems(1) kv k by auto
    show ?thesis
    proof (cases "ReadUint32 v")
      case (Inl e)
      then show ?thesis using Cons.prems(3) kv k by simp
    next
      case (Inr cr)
      obtain c r where cr: "cr = (c, r)" by (cases cr)
      show ?thesis
        using Inr cr kv k SetFromMap_idle_unchanged[OF notin]
        by (auto simp: negotiateIdleConnectionStateLifetime_def MinDuration_def min_def)
    qed
  next
    case False
    then have mem: "(TagICSL, v) \<in> set kvs" using Cons.prems(2) by auto
    have d: "distinct (map fst kvs)" using Cons.prems(1) by simp
    have kne: "key \<noteq> TagICSL" using Cons.prems(1) kv mem by force
    show ?thesis
      using Cons.prems(3) kv kne Cons.IH[OF d mem]
      by (cases key) (auto split: sum.splits)
  qed
qed

lemma uint32_seconds_bound: "uint (c :: 32 word) * Second < 2 ^ 63"
proof -
  have "uint c < 2 ^ 32" using uint_lt2p[of c] by simp
  then have "uint c * Second < 2 ^ 32 * 1000000000" by (simp add: Second_def)
  then show ?thesis by simp
qed

text \<open>
  C9.  When \<^verbatim>\<open>SetFromMap\<close> has processed, without error, a map that binds the idle-timeout
  tag to the bytes \<open>v\<close>, read as the little-endian number \<open>c\<close> of seconds, the idle
  lifetime the manager reports is the minimum of \<open>c\<close> seconds and the local maximum,
  in whatever order the map's entries were visited.  For \<open>c = 0\<close> (and a local
  maximum that is not negative) that minimum is the zero lifetime, which the spec reads
  as a disabled idle timeout.
\<close>

theorem SetFromMap_idle_timeout:
  assumes "distinct (map fst kvs)"
    and "(TagICSL, v) \<in> set kvs"
    and "fst (SetFromMap MaxIdle kvs h) = None"
    and "ReadUint32 v = Inr (c, r)"
  shows "GetIdleConnectionStateLifetime (snd (SetFromMap MaxIdle kvs h))
           = min (uint c * Second) MaxIdle
       \<and> (c = 0 \<and> 0 \<le> MaxIdle \<longrightarrow>
            idleTimeoutDisabled
              (GetIdleConnectionStateLifetime (snd (SetFromMap MaxIdle kvs h))))"
proof -
  from SetFromMap_idle[OF assms(1-3)] assms(4)
  have "idleConnectionStateLifetime (snd (SetFromMap MaxIdle kvs h)) = min (uint c * Second) MaxIdle"
    by auto
  then show ?thesis
    by (auto simp: GetIdleConnectionStateLifetime_def idleTimeoutDisabled_def)
qed

theorem SetFromMap_idle_timeout_witness:
  "distinct (map fst [(TagSFCW, [0, 0, 1, 0]), (TagICSL, [0, 0, 0, 0]), (TagMSPC, [0x64, 0, 0, 0])])
   \<and> (TagICSL, [0, 0, 0, 0])
        \<in> set [(TagSFCW, [0, 0, 1, 0]), (TagICSL, [0, 0, 0, 0]), (TagMSPC, [0x64, 0, 0, 0])]
   \<and> fst (SetFromMap (600 * Second)
        [(TagSFCW, [0, 0, 1, 0]), (TagICSL, [0, 0, 0, 0]), (TagMSPC, [0x64, 0, 0, 0])]
        \<lparr>params = Map.empty, idleConnectionStateLifetime = 30 * Second,
         sendStreamFlowControlWindow = 16384, sendConnectionFlowControlWindow = 16384,
         receiveStreamFlowControlWindow = 32768, receiveConnectionFlowControlWindow = 49152\<rparr>) = None
   \<and> ReadUint32 [0, 0, 0, 0] = Inr (0, [])
   \<and> (0 :: Duration) \<le> 600 * Second
   \<and> idleTimeoutDisabled (GetIdleConnectionStateLifetime (snd (SetFromMap (600 * Second)
        [(TagSFCW, [0, 0, 1, 0]), (TagICSL, [0, 0, 0, 0]), (TagMSPC, [0x64, 0, 0, 0])]
        \<lparr>params = Map.empty, idleConnectionStateLifetime = 30 * Second,
         sendStreamFlowControlWindow = 16384, sendConnectionFlowControlWindow = 16384,
         receiveStreamFlowControlWindow = 32768, receiveConnectionFlowControlWindow = 49152\<rparr>)))
   \<and> GetIdleConnectionStateLifetime (snd (SetFromMap (600 * Second)
        [(TagICSL, [0x84, 0x03, 0, 0]), (TagCFCW, [0, 0, 1, 0])]
        \<lparr>params = Map.empty, idleConnectionStateLifetime = 30 * Second,
         sendStreamFlowControlWindow = 16384, sendConnectionFlowControlWindow = 16384,
         receiveStreamFlowControlWindow = 32768, receiveConnectionFlowControlWindow = 49152\<rparr>))
      = 600 * Second"
proof -
  let ?h = "\<lparr>params = Map.empty, idleConnectionStateLifetime = 30 * Second,
         sendStreamFlowControlWindow = 16384, sendConnectionFlowControlWindow = 16384,
         receiveStreamFlowControlWindow = 32768, receiveConnectionFlowControlWindow = 49152\<rparr>"
  let ?kvs = "[(TagSFCW, [0, 0, 1, 0]), (TagICSL, [0, 0, 0, 0]), (TagMSPC, [0x64, 0, 0, 0])]"
  let ?kvs2 = "[(TagICSL, [0x84, 0x03, 0, 0]), (TagCFCW, [0, 0, 1, 0])]"
  have d: "distinct (map fst ?kvs)" by simp
  have m: "(TagICSL, [0, 0, 0, 0]) \<in> set ?kvs" by simp
  have rd: "ReadUint32 [0, 0, 0, 0] = Inr (0, [])"
    by (simp add: ReadUint32_def ReadByte_def)
  have rd1: "ReadUint32 [0, 0, 1, 0] = Inr (65536, [])"
    by (simp add: ReadUint32_def ReadByte_def)
  have ok: "fst (SetFromMap (600 * Second) ?kvs ?h) = None"
    by (simp add: rd rd1)
  have d2: "distinct (map fst ?kvs2)" by simp
  have m2: "(TagICSL, [0x84, 0x03, 0, 0]) \<in> set ?kvs2" by simp
  have rd2: "ReadUint32 [0x84, 0x03, 0, 0] = Inr (900, [])"
    by (simp add: ReadUint32_def ReadByte_def)
  have ok2: "fst (SetFromMap (600 * Second) ?kvs2 ?h) = None"
    by (simp add: rd1 rd2)
  have p: "(0 :: Duration) \<le> 600 * Second" by (simp add: Second_def)
  show ?thesis
    using d m ok rd p SetFromMap_idle_timeout[OF d m ok rd]
      SetFromMap_idle_timeout[OF d2 m2 ok2 rd2]
    by (simp add: Second_def rd1 rd2 idleTimeoutDisabled_def)
qed

section \<open>Properties of the packet packer\<close>














lemma stopWaitingFits_example: "stopWaitingFits packerDeps_example"
  by (simp add: stopWaitingFits_def packerDeps_example_def)

text \<open>
  The condition on the collaborators cannot be dropped.  With a new packer and one queued
  STOP_WAITING frame, a first call whose \<^verbatim>\<open>MinLength\<close> answers more than the frame size
  packs the two stream frames, clears \<^verbatim>\<open>stopWaiting\<close> and leaves the STOP_WAITING frame
  in \<^verbatim>\<open>controlFrames\<close>; a second call with no stream data then packs that frame alone.
\<close>

lemma packPacket_stopWaiting_left_queued:
  "\<not> stopWaitingFits packerDeps_tooLarge
   \<and> controlFrames (snd (packPacket packerDeps_tooLarge 0 None
        (QueueControlFrameForNextPacket
           (FrameStopWaiting \<lparr>LeastUnacked = 10, swfEntropy = 0, swfPacketNumber = 0,
                               PacketNumberLen = 0\<rparr>)
           (newPacketPacker 1 PerspectiveServer 34))))
      = [FrameStopWaiting \<lparr>LeastUnacked = 10, swfEntropy = 0, swfPacketNumber = 1,
                            PacketNumberLen = 2\<rparr>]
   \<and> fst (packPacket packerDeps_noData 0 None
        (snd (packPacket packerDeps_tooLarge 0 None
           (QueueControlFrameForNextPacket
              (FrameStopWaiting \<lparr>LeastUnacked = 10, swfEntropy = 0, swfPacketNumber = 0,
                                  PacketNumberLen = 0\<rparr>)
              (newPacketPacker 1 PerspectiveServer 34)))))
      = Inr (Some
          \<lparr>number = 1, raw = replicate 11 0 @ [0x06] @ replicate 12 0,
           frames =
             [FrameStopWaiting \<lparr>LeastUnacked = 10, swfEntropy = 0, swfPacketNumber = 1,
                                 PacketNumberLen = 2\<rparr>],
           encryptionLevel = EncryptionForwardSecure\<rparr>)"
proof -
  have a: "\<not> stopWaitingFits packerDeps_tooLarge"
    by (simp add: stopWaitingFits_def packerDeps_tooLarge_def packerDeps_example_def)
  have b: "controlFrames (snd (packPacket packerDeps_tooLarge 0 None
        (QueueControlFrameForNextPacket
           (FrameStopWaiting \<lparr>LeastUnacked = 10, swfEntropy = 0, swfPacketNumber = 0,
                               PacketNumberLen = 0\<rparr>)
           (newPacketPacker 1 PerspectiveServer 34))))
      = [FrameStopWaiting \<lparr>LeastUnacked = 10, swfEntropy = 0, swfPacketNumber = 1,
                            PacketNumberLen = 2\<rparr>]"
    by code_simp
  have c: "fst (packPacket packerDeps_noData 0 None
        (snd (packPacket packerDeps_tooLarge 0 None
           (QueueControlFrameForNextPacket
              (FrameStopWaiting \<lparr>LeastUnacked = 10, swfEntropy = 0, swfPacketNumber = 0,
                                  PacketNumberLen = 0\<rparr>)
              (newPacketPacker 1 PerspectiveServer 34)))))
      = Inr (Some
          \<lparr>number = 1, raw = replicate 11 0 @ [0x06] @ replicate 12 0,
           frames =
             [FrameStopWaiting \<lparr>LeastUnacked = 10, swfEntropy = 0, swfPacketNumber = 1,
                                 PacketNumberLen = 2\<rparr>],
           encryptionLevel = EncryptionForwardSecure\<rparr>)"
    by code_simp
  show ?thesis using a b c by simp
qed



section \<open>Properties of the stream\<close>

lemma unat_end_offset:
  assumes "unat (Offset frame) + length (Data frame) < 2 ^ 64"
  shows "unat (Offset frame + of_nat (length (Data frame)))
           = unat (Offset frame) + length (Data frame)"
  using assms by (simp add: unat_word_ariths unat_of_nat)

text \<open>
  C3 (as amended).  On a stream on which no earlier frame went past the advertised window,
  and for a frame whose end offset (offset plus data length) is below \<open>2 ^ 64\<close>,
  \<^verbatim>\<open>AddStreamFrame\<close> returns \<^verbatim>\<open>FlowControlReceivedTooMuchData\<close> exactly when the end offset
  exceeds the advertised window; the frame queue is then left as it was, and otherwise
  the frame is appended to it.
\<close>

theorem AddStreamFrame_flow_control:
  assumes "highestReceived (flowController s) \<le> receiveFlowControlWindow (flowController s)"
    and "unat (Offset frame) + length (Data frame) < 2 ^ 64"
  shows "(fst (AddStreamFrame frame s) = Some FlowControlReceivedTooMuchData
            \<longleftrightarrow> unat (Offset frame) + length (Data frame)
                  > unat (receiveFlowControlWindow (flowController s)))
       \<and> (fst (AddStreamFrame frame s) = Some FlowControlReceivedTooMuchData
            \<longrightarrow> frameQueue (snd (AddStreamFrame frame s)) = frameQueue s)
       \<and> (fst (AddStreamFrame frame s) = None
            \<longrightarrow> frameQueue (snd (AddStreamFrame frame s)) = frameQueue s @ [frame])"
  using assms(1) unat_end_offset[OF assms(2)]
  by (auto simp: AddStreamFrame_def Let_def UpdateHighestReceived_def
      CheckFlowControlViolation_def errFlowControlViolation_def word_less_nat_alt
      word_le_nat_alt)

theorem AddStreamFrame_flow_control_witness:
  "highestReceived (flowController stream_example)
     \<le> receiveFlowControlWindow (flowController stream_example)
   \<and> unat (Offset \<lparr>StreamID = 5, FinBit = False, DataLenPresent = True, Offset = 10,
                    Data = [1, 2, 3, 4, 5, 6, 7, 8]\<rparr>)
       + length (Data \<lparr>StreamID = 5, FinBit = False, DataLenPresent = True, Offset = 10,
                       Data = [1, 2, 3, 4, 5, 6, 7, 8]\<rparr>) < 2 ^ 64
   \<and> fst (AddStreamFrame
        \<lparr>StreamID = 5, FinBit = False, DataLenPresent = True, Offset = 10,
         Data = [1, 2, 3, 4, 5, 6, 7, 8]\<rparr> stream_example)
      = Some FlowControlReceivedTooMuchData
   \<and> frameQueue (snd (AddStreamFrame
        \<lparr>StreamID = 5, FinBit = False, DataLenPresent = True, Offset = 10,
         Data = [1, 2, 3, 4, 5, 6, 7, 8]\<rparr> stream_example))
      = frameQueue stream_example
   \<and> fst (AddStreamFrame
        \<lparr>StreamID = 5, FinBit = False, DataLenPresent = True, Offset = 14, Data = [1, 2]\<rparr>
        stream_example) = None
   \<and> frameQueue (snd (AddStreamFrame
        \<lparr>StreamID = 5, FinBit = False, DataLenPresent = True, Offset = 14, Data = [1, 2]\<rparr>
        stream_example))
      = frameQueue stream_example
          @ [\<lparr>StreamID = 5, FinBit = False, DataLenPresent = True, Offset = 14, Data = [1, 2]\<rparr>]"
proof -
  let ?f = "\<lparr>StreamID = 5, FinBit = False, DataLenPresent = True, Offset = 10,
             Data = [1, 2, 3, 4, 5, 6, 7, 8]\<rparr>"
  let ?g = "\<lparr>StreamID = 5, FinBit = False, DataLenPresent = True, Offset = 14, Data = [1, 2]\<rparr>"
  have a: "highestReceived (flowController stream_example)
             \<le> receiveFlowControlWindow (flowController stream_example)"
    by (simp add: stream_example_def)
  have b: "unat (Offset ?f) + length (Data ?f) < 2 ^ 64"
    by simp
  have c: "unat (Offset ?g) + length (Data ?g) < 2 ^ 64"
    by simp
  have w: "unat (receiveFlowControlWindow (flowController stream_example)) = 16"
    by (simp add: stream_example_def)
  have e: "fst (AddStreamFrame ?g stream_example) = None"
    by (simp add: AddStreamFrame_def Let_def UpdateHighestReceived_def
        CheckFlowControlViolation_def stream_example_def)
  show ?thesis
    using a b e w AddStreamFrame_flow_control[OF a b] AddStreamFrame_flow_control[OF a c]
    by simp
qed

text \<open>
  C3 as stated, for every frame, does not hold of the code.  The end offset is computed
  in \<^verbatim>\<open>ByteCount\<close> arithmetic: a frame of two bytes at offset \<open>2 ^ 64 - 1\<close> ends past the
  window of 16 bytes, but its computed end is 1, so \<^verbatim>\<open>AddStreamFrame\<close> returns no error
  and queues it.  And the highest received offset is stored before the check: once a
  frame ending at 18 has been refused, a frame of two bytes at offset 0, which ends
  within the window, is refused as well.
\<close>

theorem AddStreamFrame_flow_control_counterexample:
  "unat (receiveFlowControlWindow (flowController stream_example)) = 16
   \<and> fst (AddStreamFrame
        \<lparr>StreamID = 5, FinBit = False, DataLenPresent = True, Offset = 0xFFFFFFFFFFFFFFFF,
         Data = [1, 2]\<rparr> stream_example) = None
   \<and> frameQueue (snd (AddStreamFrame
        \<lparr>StreamID = 5, FinBit = False, DataLenPresent = True, Offset = 0xFFFFFFFFFFFFFFFF,
         Data = [1, 2]\<rparr> stream_example))
      = [\<lparr>StreamID = 5, FinBit = False, DataLenPresent = True, Offset = 0xFFFFFFFFFFFFFFFF,
          Data = [1, 2]\<rparr>]
   \<and> unat (receiveFlowControlWindow (flowController (snd (AddStreamFrame
        \<lparr>StreamID = 5, FinBit = False, DataLenPresent = True, Offset = 10,
         Data = [1, 2, 3, 4, 5, 6, 7, 8]\<rparr> stream_example)))) = 16
   \<and> fst (AddStreamFrame
        \<lparr>StreamID = 5, FinBit = False, DataLenPresent = True, Offset = 0, Data = [1, 2]\<rparr>
        (snd (AddStreamFrame
           \<lparr>StreamID = 5, FinBit = False, DataLenPresent = True, Offset = 10,
            Data = [1, 2, 3, 4, 5, 6, 7, 8]\<rparr> stream_example)))
      = Some FlowControlReceivedTooMuchData"
  by (simp add: AddStreamFrame_def Let_def UpdateHighestReceived_def
      CheckFlowControlViolation_def errFlowControlViolation_def stream_example_def)

text \<open>
  C1 does not hold of the code.  With a send window of 2 bytes, raised to 4 while the
  call waits, \<^verbatim>\<open>Write\<close> of the three bytes 1, 2, 3 returns 3 without error, but the two
  frames it queues both carry the first two bytes of the buffer: bytes 1, 2 at offset 0
  and bytes 1, 2 again at offset 2.  The byte 3 is never queued, and the write offset (at
  which \<^verbatim>\<open>Close\<close> puts the FIN) is 4, not 3.
\<close>

theorem Write_split_repeats_prefix:
  "Write queueStreamFrame_ok [1, 2, 3] [EvUpdateSendFlowControlWindow 4] [] stream_example
     = Some (Returned 3 None, [],
         [\<lparr>StreamID = 5, FinBit = False, DataLenPresent = False, Offset = 0, Data = [1, 2]\<rparr>,
          \<lparr>StreamID = 5, FinBit = False, DataLenPresent = False, Offset = 2, Data = [1, 2]\<rparr>],
         \<lparr>streamID = 5, readPosInFrame = 0, writeOffset = 4, readOffset = 0, err = None,
          eof = False, closed = False, frameQueue = [],
          flowController =
            \<lparr>bytesSent = 4, sendFlowControlWindow = 4, bytesRead = 0, highestReceived = 0,
             receiveFlowControlWindow = 16\<rparr>\<rparr>)
   \<and> concat (map frameBytes
         [\<lparr>StreamID = 5, FinBit = False, DataLenPresent = False, Offset = 0, Data = [1, 2]\<rparr>,
          \<lparr>StreamID = 5, FinBit = False, DataLenPresent = False, Offset = 2, Data = [1, 2]\<rparr>])
     = [(0, 1), (1, 2), (2, 1), (3, 2)]"
  by code_simp

end
